theory Spec2Isabelle
  imports Complex_Main "HOL-Library.Word" "HOL-Library.Log_Nat"
begin

section \<open>Machine numbers\<close>

type_synonym u8 = "8 word"
type_synonym u32 = "32 word"
type_synonym u64 = "64 word"

text \<open>
  A raw byte pointer (\<^verbatim>\<open>uint8_t *\<close>) is modelled as the store it points into: a map
  from byte offsets (relative to the pointer) to bytes.
\<close>

type_synonym bytes = "nat \<Rightarrow> u8"

text \<open>
  Finite IEEE-754 values are rationals. \<open>fp_round p emin\<close> is round-to-nearest, ties to
  even, onto the binary format with \<open>p\<close> significand bits whose smallest subnormal is
  \<open>2 ^ emin\<close>; \<open>f32\<close> is the rounding every \<^verbatim>\<open>float\<close> operation and every
  \<^verbatim>\<open>static_cast<float>\<close> performs, \<open>f64\<close> the one of \<^verbatim>\<open>double\<close>. Overflow to
  infinity and NaN are outside the model: every value the filter computes with is bounded
  (a byte times a clamped opacity, a correlation coefficient).
\<close>

definition pow2 :: "int \<Rightarrow> rat" where
  "pow2 e = (if 0 \<le> e then 2 ^ nat e else 1 / 2 ^ nat (- e))"

definition ilog2 :: "rat \<Rightarrow> int" where
  "ilog2 x = (if 1 \<le> \<bar>x\<bar> then bitlen \<lfloor>\<bar>x\<bar>\<rfloor> - 1 else - bitlen (\<lceil>1 / \<bar>x\<bar>\<rceil> - 1))"

text \<open>Rounding a non-negative rational to the nearest integer, a tie to the even one.\<close>

definition rne :: "rat \<Rightarrow> int" where
  "rne q = (let n = \<lfloor>q\<rfloor>; r = q - of_int n
            in if r < 1 / 2 \<or> (r = 1 / 2 \<and> even n) then n else n + 1)"

definition fp_round :: "nat \<Rightarrow> int \<Rightarrow> rat \<Rightarrow> rat" where
  "fp_round p emin x =
     (if x = 0 then 0
      else let u = pow2 (max emin (ilog2 x - (int p - 1)))
           in sgn x * of_int (rne (\<bar>x\<bar> / u)) * u)"

definition f32 :: "rat \<Rightarrow> rat" where
  "f32 = fp_round 24 (- 149)"

definition f64 :: "rat \<Rightarrow> rat" where
  "f64 = fp_round 53 (- 1074)"

text \<open>\<^verbatim>\<open>static_cast<int>\<close> of a floating value truncates towards zero.\<close>

definition float_to_int :: "rat \<Rightarrow> int" where
  "float_to_int x = (if 0 \<le> x then \<lfloor>x\<rfloor> else \<lceil>x\<rceil>)"

text \<open>Division of C++ \<^verbatim>\<open>int\<close>s truncates towards zero.\<close>

definition c_div :: "int \<Rightarrow> int \<Rightarrow> int" where
  "c_div a b = sgn a * sgn b * (\<bar>a\<bar> div \<bar>b\<bar>)"

text \<open>\<^verbatim>\<open>static_cast<int>\<close> of a \<^verbatim>\<open>long long\<close> keeps the low 32 bits, signed.\<close>

definition to_int32 :: "int \<Rightarrow> int" where
  "to_int32 v = sint (word_of_int v :: u32)"

definition clamp :: "rat \<Rightarrow> rat \<Rightarrow> rat \<Rightarrow> rat" where
  "clamp v lo hi = (if v < lo then lo else if hi < v then hi else v)"

section \<open>The collaborators: OpenCV and the host\<close>

text \<open>
  \<^verbatim>\<open>cv::Mat\<close>: the header fields the filter reads and the pixel store. A matrix that
  owns no data has no rows and no columns, so \<^verbatim>\<open>empty()\<close> is decided by the sizes.
\<close>

record mat =
  rows :: nat
  cols :: nat
  channels :: nat
  step :: nat
  data :: bytes

definition mat_empty :: "mat \<Rightarrow> bool" where
  "mat_empty m = (rows m = 0 \<or> cols m = 0)"

definition Mat :: mat where
  "Mat = \<lparr>rows = 0, cols = 0, channels = 0, step = 0, data = (\<lambda>_. 0)\<rparr>"

datatype imread_flag = IMREAD_GRAYSCALE | IMREAD_UNCHANGED

datatype color_code = COLOR_BGR2BGRA | COLOR_GRAY2BGRA | COLOR_BGRA2GRAY

text \<open>What \<^verbatim>\<open>cv::minMaxLoc\<close> reports about a correlation surface.\<close>

record minmax =
  min_val :: rat
  max_val :: rat
  min_loc :: "int \<times> int"
  max_loc :: "int \<times> int"

text \<open>
  The OpenCV functions the filter calls are not part of this repository: they are
  parameters of the model. \<open>'r\<close> is the correlation surface that
  \<^verbatim>\<open>cv::matchTemplate(..., TM_CCOEFF_NORMED)\<close> produces; \<open>resize\<close> is
  \<^verbatim>\<open>cv::resize\<close> to a size \<open>(width, height)\<close> with \<^verbatim>\<open>INTER_AREA\<close>.
\<close>

record 'r opencv =
  imread :: "string \<Rightarrow> imread_flag \<Rightarrow> mat"
  cvtColor :: "mat \<Rightarrow> color_code \<Rightarrow> mat"
  resize :: "mat \<Rightarrow> nat \<times> nat \<Rightarrow> mat"
  matchTemplate :: "mat \<Rightarrow> mat \<Rightarrow> 'r"
  minMaxLoc :: "'r \<Rightarrow> minmax"

section \<open>The matcher\<close>

text \<open>
  The three out-parameters of \<^verbatim>\<open>detect_template\<close>: \<open>None\<close> is a null pointer,
  \<open>Some v\<close> a pointer to a variable that holds \<open>v\<close>.
\<close>

record detect_out =
  out_x :: "int option"
  out_y :: "int option"
  out_score :: "rat option"

definition store :: "'a option \<Rightarrow> 'a \<Rightarrow> 'a option" where
  "store p v = (case p of None \<Rightarrow> None | Some _ \<Rightarrow> Some v)"

definition detect_template ::
  "'r opencv \<Rightarrow> mat \<Rightarrow> mat \<Rightarrow> rat \<Rightarrow> detect_out \<Rightarrow> bool \<times> detect_out" where
  "detect_template cv frame_gray templ_gray threshold' outs =
     (if mat_empty frame_gray \<or> mat_empty templ_gray then (False, outs)
      else if cols templ_gray > cols frame_gray \<or> rows templ_gray > rows frame_gray
        then (False, outs)
      else
        let result = matchTemplate cv frame_gray templ_gray;
            mm = minMaxLoc cv result;
            outs1 = outs\<lparr>out_score := store (out_score outs) (f32 (max_val mm))\<rparr>
        in if max_val mm \<ge> threshold'
           then (True, outs1\<lparr>out_x := store (out_x outs1) (fst (max_loc mm)),
                              out_y := store (out_y outs1) (snd (max_loc mm))\<rparr>)
           else (False, outs1))"

text \<open>The inputs on which the matcher fails closed.\<close>

definition degenerate :: "mat \<Rightarrow> mat \<Rightarrow> bool" where
  "degenerate frame_gray templ_gray =
     (mat_empty frame_gray \<or> mat_empty templ_gray \<or>
      cols frame_gray < cols templ_gray \<or> rows frame_gray < rows templ_gray)"

section \<open>The compositor\<close>

text \<open>
  The effective source alpha of \<^verbatim>\<open>blend_overlay_bgra\<close>:
  \<^verbatim>\<open>static_cast<int>(static_cast<float>(src_px[3]) * opacity + 0.5f)\<close>. The byte
  converts exactly; the product and the sum are each rounded to binary32.
\<close>

definition src_alpha_of :: "u8 \<Rightarrow> rat \<Rightarrow> int" where
  "src_alpha_of a opacity' = float_to_int (f32 (f32 (of_int (uint a) * opacity') + 1 / 2))"

text \<open>One colour channel: the \<^verbatim>\<open>int\<close> expression, then \<^verbatim>\<open>static_cast<uint8_t>\<close>.\<close>

definition blend_channel :: "u8 \<Rightarrow> u8 \<Rightarrow> int \<Rightarrow> u8" where
  "blend_channel s d src_alpha =
     word_of_int (c_div (uint s * src_alpha + uint d * (255 - src_alpha) + 127) 255)"

text \<open>
  The body of the inner loop. \<open>src_px\<close> and \<open>dst_px\<close> are the offsets of the two
  pixels in the overlay's store and in the destination; the four writes happen in the
  source's order, each reading the destination as the writes before it left it.
\<close>

definition blend_pixel :: "bytes \<Rightarrow> nat \<Rightarrow> nat \<Rightarrow> rat \<Rightarrow> bytes \<Rightarrow> bytes" where
  "blend_pixel src src_px dst_px opacity' dst =
     (let src_alpha = src_alpha_of (src (src_px + 3)) opacity' in
      if src_alpha \<le> 0 then dst
      else
        let d0 = dst(dst_px := blend_channel (src src_px) (dst dst_px) src_alpha);
            d1 = d0(dst_px + 1 := blend_channel (src (src_px + 1)) (d0 (dst_px + 1)) src_alpha);
            d2 = d1(dst_px + 2 := blend_channel (src (src_px + 2)) (d1 (dst_px + 2)) src_alpha)
        in d2(dst_px + 3 := 255))"

text \<open>The inner loop over \<open>fx\<close> (with \<open>ox\<close> running beside it) of one row.\<close>

function blend_cols ::
  "bytes \<Rightarrow> nat \<Rightarrow> nat \<Rightarrow> rat \<Rightarrow> int \<Rightarrow> int \<Rightarrow> int \<Rightarrow> bytes \<Rightarrow> bytes" where
  "blend_cols src src_row dst_row opacity' end_x ox fx dst =
     (if fx < end_x
      then blend_cols src src_row dst_row opacity' end_x (ox + 1) (fx + 1)
             (blend_pixel src (src_row + nat ox * 4) (dst_row + nat fx * 4) opacity' dst)
      else dst)"
  by pat_completeness auto
termination
  by (relation "measure (\<lambda>(src, src_row, dst_row, opacity', end_x, ox, fx, dst). nat (end_x - fx))")
     auto

text \<open>
  The outer loop over \<open>fy\<close> (with \<open>oy\<close> beside it): \<open>overlay.ptr(oy)\<close> is the offset
  \<open>oy * step\<close>, the destination row starts at \<open>fy * dst_linesize\<close>.
\<close>

function blend_rows ::
  "mat \<Rightarrow> nat \<Rightarrow> rat \<Rightarrow> int \<Rightarrow> int \<Rightarrow> int \<Rightarrow> int \<Rightarrow> int \<Rightarrow> int \<Rightarrow> bytes \<Rightarrow> bytes" where
  "blend_rows overlay dst_linesize opacity' overlay_x0 start_x end_x end_y oy fy dst =
     (if fy < end_y
      then blend_rows overlay dst_linesize opacity' overlay_x0 start_x end_x end_y (oy + 1) (fy + 1)
             (blend_cols (data overlay) (nat oy * step overlay) (nat fy * dst_linesize)
                opacity' end_x overlay_x0 start_x dst)
      else dst)"
  by pat_completeness auto
termination
  by (relation "measure (\<lambda>(overlay, dst_linesize, opacity', overlay_x0, start_x, end_x, end_y, oy, fy, dst).
                  nat (end_y - fy))")
     auto

definition blend_overlay_bgra ::
  "bytes \<Rightarrow> u32 \<Rightarrow> int \<Rightarrow> int \<Rightarrow> mat \<Rightarrow> int \<Rightarrow> int \<Rightarrow> rat \<Rightarrow> bytes" where
  "blend_overlay_bgra dst dst_linesize frame_w frame_h overlay dst_x dst_y opacity' =
     (if mat_empty overlay then dst
      else
        let overlay_w = int (cols overlay);
            overlay_h = int (rows overlay);
            start_x = max 0 dst_x;
            start_y = max 0 dst_y;
            end_x = min frame_w (dst_x + overlay_w);
            end_y = min frame_h (dst_y + overlay_h)
        in if start_x \<ge> end_x \<or> start_y \<ge> end_y then dst
           else
             let overlay_x0 = start_x - dst_x;
                 overlay_y0 = start_y - dst_y
             in blend_rows overlay (unat dst_linesize) opacity' overlay_x0 start_x end_x end_y
                  overlay_y0 start_y dst)"

text \<open>
  The intersection of the overlay, placed at \<open>(dst_x, dst_y)\<close>, with the frame
  \<open>[0, frame_w) \<times> [0, frame_h)\<close>, as a predicate on pixel coordinates.
\<close>

definition in_rect :: "int \<Rightarrow> int \<Rightarrow> mat \<Rightarrow> int \<Rightarrow> int \<Rightarrow> int \<Rightarrow> int \<Rightarrow> bool" where
  "in_rect frame_w frame_h overlay dst_x dst_y fx fy =
     (max 0 dst_x \<le> fx \<and> fx < min frame_w (dst_x + int (cols overlay)) \<and>
      max 0 dst_y \<le> fy \<and> fy < min frame_h (dst_y + int (rows overlay)))"

text \<open>Offset of pixel \<open>(fx, fy)\<close> in a buffer whose rows are \<open>linesize\<close> bytes apart.\<close>

definition px_off :: "nat \<Rightarrow> int \<Rightarrow> int \<Rightarrow> nat" where
  "px_off linesize fx fy = nat fy * linesize + nat fx * 4"

section \<open>The filter instance\<close>

datatype video_format = VIDEO_FORMAT_BGRA | VIDEO_FORMAT_BGRX | VIDEO_FORMAT_OTHER int

text \<open>
  \<^verbatim>\<open>obs_source_frame\<close>: the fields the filter reads. \<open>data0\<close> and \<open>linesize0\<close> are
  \<^verbatim>\<open>data[0]\<close> and \<^verbatim>\<open>linesize[0]\<close>.
\<close>

record obs_source_frame =
  data0 :: bytes
  linesize0 :: u32
  width :: u32
  height :: u32
  format :: video_format

record shape_overlay_filter_data =
  source :: nat
  template_path :: string
  overlay_path :: string
  template_gray :: mat
  overlay_bgra :: mat
  overlay_draw :: mat
  threshold :: rat
  interval_ms :: u32
  opacity :: rat
  offset_x :: int
  offset_y :: int
  scale_overlay :: bool
  only_when_matched :: bool
  last_detect_ts :: u64
  last_x :: int
  last_y :: int
  last_score :: rat
  last_valid :: bool
  warned_format :: bool

text \<open>The values the \<^verbatim>\<open>obs_data_get_*\<close> getters return for the filter's keys.\<close>

record settings =
  get_template_path :: string
  get_overlay_path :: string
  get_threshold :: rat
  get_interval_ms :: int
  get_opacity :: rat
  get_offset_x :: int
  get_offset_y :: int
  get_scale_overlay :: bool
  get_only_when_matched :: bool

definition load_template_gray :: "'r opencv \<Rightarrow> string \<Rightarrow> mat" where
  "load_template_gray cv path =
     (if path = [] then Mat else imread cv path IMREAD_GRAYSCALE)"

definition load_overlay_bgra :: "'r opencv \<Rightarrow> string \<Rightarrow> mat" where
  "load_overlay_bgra cv path =
     (if path = [] then Mat
      else
        let img = imread cv path IMREAD_UNCHANGED in
        if mat_empty img then img
        else if channels img = 4 then img
        else if channels img = 3 then cvtColor cv img COLOR_BGR2BGRA
        else if channels img = 1 then cvtColor cv img COLOR_GRAY2BGRA
        else Mat)"

definition shape_overlay_filter_update ::
  "'r opencv \<Rightarrow> shape_overlay_filter_data \<Rightarrow> settings \<Rightarrow> shape_overlay_filter_data" where
  "shape_overlay_filter_update cv filter' s =
     (let template_gray' = load_template_gray cv (get_template_path s);
          overlay_bgra' = load_overlay_bgra cv (get_overlay_path s);
          overlay_draw' =
            (if \<not> mat_empty overlay_bgra' \<and> get_scale_overlay s \<and> \<not> mat_empty template_gray'
             then resize cv overlay_bgra' (cols template_gray', rows template_gray')
             else overlay_bgra')
      in filter'
          \<lparr>template_path := get_template_path s,
           overlay_path := get_overlay_path s,
           template_gray := template_gray',
           overlay_bgra := overlay_bgra',
           overlay_draw := overlay_draw',
           threshold := clamp (f32 (get_threshold s)) 0 1,
           interval_ms := word_of_int (get_interval_ms s),
           opacity := clamp (f32 (f64 (get_opacity s / 100))) 0 1,
           offset_x := to_int32 (get_offset_x s),
           offset_y := to_int32 (get_offset_y s),
           scale_overlay := get_scale_overlay s,
           only_when_matched := get_only_when_matched s,
           last_valid := False\<rparr>)"

text \<open>\<^verbatim>\<open>new shape_overlay_filter_data()\<close>: the default member initialisers.\<close>

definition new_filter_data :: shape_overlay_filter_data where
  "new_filter_data =
     \<lparr>source = 0, template_path = [], overlay_path = [],
      template_gray = Mat, overlay_bgra = Mat, overlay_draw = Mat,
      threshold = f32 (4 / 5), interval_ms = 100, opacity = 1,
      offset_x = 0, offset_y = 0, scale_overlay = True, only_when_matched = True,
      last_detect_ts = 0, last_x = 0, last_y = 0, last_score = 0,
      last_valid = False, warned_format = False\<rparr>"

definition shape_overlay_filter_create ::
  "'r opencv \<Rightarrow> settings \<Rightarrow> nat \<Rightarrow> shape_overlay_filter_data" where
  "shape_overlay_filter_create cv s source' =
     shape_overlay_filter_update cv (new_filter_data\<lparr>source := source'\<rparr>) s"

text \<open>
  What a call does besides changing the instance and the frame: the warning it logs,
  the matcher invocation it makes.
\<close>

datatype event = Blog_warning video_format | Detect_call

record video_out =
  ret :: "obs_source_frame option"
  filter_after :: shape_overlay_filter_data
  events :: "event list"

text \<open>
  The detection attempt of \<^verbatim>\<open>shape_overlay_filter_video\<close> (the body of
  \<^verbatim>\<open>if (should_detect)\<close> and the write-back under the lock that follows it).
\<close>

definition detect_and_store ::
  "'r opencv \<Rightarrow> shape_overlay_filter_data \<Rightarrow> obs_source_frame \<Rightarrow> u64 \<Rightarrow> shape_overlay_filter_data"
  where
  "detect_and_store cv filter' frame now =
     (let frame_bgra = \<lparr>rows = nat (sint (height frame)), cols = nat (sint (width frame)),
                        channels = 4, step = unat (linesize0 frame), data = data0 frame\<rparr>;
          frame_gray = cvtColor cv frame_bgra COLOR_BGRA2GRAY;
          (matched, outs) =
             detect_template cv frame_gray (template_gray filter') (threshold filter')
               \<lparr>out_x = Some 0, out_y = Some 0, out_score = Some 0\<rparr>;
          score = (case out_score outs of Some v \<Rightarrow> v | None \<Rightarrow> 0);
          found_x = (case out_x outs of Some v \<Rightarrow> v | None \<Rightarrow> 0);
          found_y = (case out_y outs of Some v \<Rightarrow> v | None \<Rightarrow> 0);
          last_x' = (if matched then found_x else last_x filter');
          last_y' = (if matched then found_y else last_y filter');
          last_valid' = (if matched then True
                         else if only_when_matched filter' then False
                         else last_valid filter')
      in filter'\<lparr>last_detect_ts := now, last_x := last_x', last_y := last_y',
                 last_valid := last_valid', last_score := score\<rparr>)"

text \<open>\<open>now\<close> is the value \<^verbatim>\<open>os_gettime_ns()\<close> returns during the call.\<close>

definition should_detect :: "shape_overlay_filter_data \<Rightarrow> u64 \<Rightarrow> bool" where
  "should_detect filter' now =
     (let interval_ns = (ucast (interval_ms filter') :: u64) * 1000000
      in interval_ms filter' = 0 \<or> now - last_detect_ts filter' \<ge> interval_ns)"

definition shape_overlay_filter_video ::
  "'r opencv \<Rightarrow> shape_overlay_filter_data \<Rightarrow> obs_source_frame option \<Rightarrow> u64 \<Rightarrow> video_out" where
  "shape_overlay_filter_video cv filter' frame_ptr now =
     (case frame_ptr of
        None \<Rightarrow> \<lparr>ret = None, filter_after = filter', events = []\<rparr>
      | Some frame \<Rightarrow>
          if format frame \<noteq> VIDEO_FORMAT_BGRA \<and> format frame \<noteq> VIDEO_FORMAT_BGRX then
            (if \<not> warned_format filter'
             then \<lparr>ret = Some frame, filter_after = filter'\<lparr>warned_format := True\<rparr>,
                   events = [Blog_warning (format frame)]\<rparr>
             else \<lparr>ret = Some frame, filter_after = filter', events = []\<rparr>)
          else if mat_empty (template_gray filter') \<or> mat_empty (overlay_draw filter') then
            \<lparr>ret = Some frame, filter_after = filter', events = []\<rparr>
          else
            let filter1 = (if should_detect filter' now
                           then detect_and_store cv filter' frame now else filter');
                evs = (if should_detect filter' now then [Detect_call] else [])
            in if \<not> last_valid filter1 then
                 \<lparr>ret = Some frame, filter_after = filter1, events = evs\<rparr>
               else
                 let draw_x = last_x filter1 + offset_x filter';
                     draw_y = last_y filter1 + offset_y filter'
                 in \<lparr>ret = Some (frame\<lparr>data0 :=
                            blend_overlay_bgra (data0 frame) (linesize0 frame)
                              (sint (width frame)) (sint (height frame))
                              (overlay_draw filter') draw_x draw_y (opacity filter')\<rparr>),
                      filter_after = filter1, events = evs\<rparr>)"

text \<open>The calls the host makes on one instance, and their effect in sequence.\<close>

datatype call = Update settings | Video "obs_source_frame option" u64

fun run ::
  "'r opencv \<Rightarrow> shape_overlay_filter_data \<Rightarrow> call list
     \<Rightarrow> shape_overlay_filter_data \<times> event list" where
  "run cv filter' [] = (filter', [])"
| "run cv filter' (Update s # cs) = run cv (shape_overlay_filter_update cv filter' s) cs"
| "run cv filter' (Video frame_ptr now # cs) =
     (let r = shape_overlay_filter_video cv filter' frame_ptr now;
          (filter2, evs) = run cv (filter_after r) cs
      in (filter2, events r @ evs))"

fun is_warning :: "event \<Rightarrow> bool" where
  "is_warning (Blog_warning _) = True"
| "is_warning Detect_call = False"

section \<open>Fixtures for concrete evaluation\<close>

definition gray_mat :: "nat \<Rightarrow> nat \<Rightarrow> mat" where
  "gray_mat h w = \<lparr>rows = h, cols = w, channels = 1, step = w, data = (\<lambda>_. 7)\<rparr>"

text \<open>A collaborator whose correlation maximum is the given score, found at \<open>(2, 1)\<close>.\<close>

definition cv_const :: "rat \<Rightarrow> unit opencv" where
  "cv_const s =
     \<lparr>imread = (\<lambda>_ _. Mat),
      cvtColor = (\<lambda>m _. m),
      resize = (\<lambda>m _. m),
      matchTemplate = (\<lambda>_ _. ()),
      minMaxLoc = (\<lambda>_. \<lparr>min_val = 0, max_val = s, min_loc = (0, 0), max_loc = (2, 1)\<rparr>)\<rparr>"

definition outs0 :: detect_out where
  "outs0 = \<lparr>out_x = Some 0, out_y = Some 0, out_score = Some 0\<rparr>"

text \<open>A 2 x 2 overlay, every pixel B = G = R = 200 and fully opaque.\<close>

definition overlay2 :: mat where
  "overlay2 = \<lparr>rows = 2, cols = 2, channels = 4, step = 8,
                data = (\<lambda>i. if i mod 4 = 3 then 255 else 200)\<rparr>"

text \<open>A single overlay pixel, B = G = R = 200, alpha 50.\<close>

definition overlay50 :: mat where
  "overlay50 = \<lparr>rows = 1, cols = 1, channels = 4, step = 4,
                 data = (\<lambda>i. if i mod 4 = 3 then 50 else 200)\<rparr>"

text \<open>A 3 x 2 frame, rows 16 bytes apart (4 bytes of padding), every byte 10.\<close>

definition frame32 :: obs_source_frame where
  "frame32 = \<lparr>data0 = (\<lambda>_. 10), linesize0 = 16, width = 3, height = 2,
               format = VIDEO_FORMAT_BGRA\<rparr>"

text \<open>
  An instance with a 1 x 1 template and the overlay above, threshold 3/4, interval 1000 ms, whose
  last attempt, at 5 s, matched at \<open>(2, 0)\<close>.
\<close>

definition filter5 :: shape_overlay_filter_data where
  "filter5 = new_filter_data
     \<lparr>template_gray := gray_mat 1 1, overlay_bgra := overlay2, overlay_draw := overlay2,
      threshold := 3 / 4, interval_ms := 1000, last_detect_ts := 5000000000, last_x := 2, last_y := 0,
      last_score := 1, last_valid := True\<rparr>"

definition settings0 :: settings where
  "settings0 = \<lparr>get_template_path = [], get_overlay_path = [], get_threshold = 4 / 5,
                 get_interval_ms = 100, get_opacity = 50, get_offset_x = 0, get_offset_y = 0,
                 get_scale_overlay = True, get_only_when_matched = True\<rparr>"

section \<open>Rounding and integer arithmetic\<close>

lemma pow2_pos: "0 < pow2 e"
  by (simp add: pow2_def)

lemma rne_le:
  assumes "q \<le> of_int k"
  shows "rne q \<le> k"
proof (cases "\<lfloor>q\<rfloor> = k")
  case True
  have "q - of_int \<lfloor>q\<rfloor> < 1 / 2"
    using assms True by linarith
  then show ?thesis using True by (simp add: rne_def Let_def)
next
  case False
  moreover have "\<lfloor>q\<rfloor> \<le> k" using assms by (simp add: floor_le_iff)
  ultimately show ?thesis by (simp add: rne_def Let_def)
qed

lemma rne_ge:
  assumes "of_int k \<le> q"
  shows "k \<le> rne q"
proof -
  have "k \<le> \<lfloor>q\<rfloor>" using assms by (simp add: le_floor_iff)
  then show ?thesis by (simp add: rne_def Let_def)
qed

lemma fp_round_alt:
  "fp_round p emin x =
     (if x = 0 then 0
      else sgn x * of_int (rne (\<bar>x\<bar> / pow2 (max emin (ilog2 x - (int p - 1)))))
             * pow2 (max emin (ilog2 x - (int p - 1))))"
  by (simp add: fp_round_def Let_def)

lemma fp_round_nonneg: "0 \<le> x \<Longrightarrow> 0 \<le> fp_round p emin x"
proof -
  assume x: "0 \<le> x"
  let ?u = "pow2 (max emin (ilog2 x - (int p - 1)))"
  have u: "0 < ?u" by (rule pow2_pos)
  have "of_int 0 \<le> \<bar>x\<bar> / ?u" using u by simp
  then have "0 \<le> rne (\<bar>x\<bar> / ?u)" by (rule rne_ge)
  then show ?thesis
    using x u by (auto simp add: fp_round_alt sgn_if intro!: mult_nonneg_nonneg)
qed

lemma fp_round_le_grid:
  assumes x: "0 < x" and le: "x \<le> N"
    and grid: "N = of_int k * pow2 (max emin (ilog2 x - (int p - 1)))"
  shows "fp_round p emin x \<le> N"
proof -
  let ?u = "pow2 (max emin (ilog2 x - (int p - 1)))"
  have u: "0 < ?u" by (rule pow2_pos)
  have "\<bar>x\<bar> / ?u \<le> of_int k"
    using x le u by (simp add: grid pos_divide_le_eq)
  then have "rne (\<bar>x\<bar> / ?u) \<le> k" by (rule rne_le)
  then have "(of_int (rne (\<bar>x\<bar> / ?u)) :: rat) * ?u \<le> of_int k * ?u"
    using u by (simp add: mult_right_mono)
  then show ?thesis
    using x by (simp add: fp_round_alt grid)
qed

lemma fp_round_ge_grid:
  assumes x: "0 < x" and le: "N \<le> x"
    and grid: "N = of_int k * pow2 (max emin (ilog2 x - (int p - 1)))"
  shows "N \<le> fp_round p emin x"
proof -
  let ?u = "pow2 (max emin (ilog2 x - (int p - 1)))"
  have u: "0 < ?u" by (rule pow2_pos)
  have "of_int k \<le> \<bar>x\<bar> / ?u"
    using x le u by (simp add: grid pos_le_divide_eq)
  then have "k \<le> rne (\<bar>x\<bar> / ?u)" by (rule rne_ge)
  then have "of_int k * ?u \<le> (of_int (rne (\<bar>x\<bar> / ?u)) :: rat) * ?u"
    using u by (simp add: mult_right_mono)
  then show ?thesis
    using x by (simp add: fp_round_alt grid)
qed

lemma ilog2_le7:
  assumes "\<bar>x\<bar> < 256"
  shows "ilog2 x \<le> 7"
proof (cases "1 \<le> \<bar>x\<bar>")
  case True
  have "\<lfloor>\<bar>x\<bar>\<rfloor> < 2 ^ nat 8" using assms by (simp add: floor_less_iff)
  then have "bitlen \<lfloor>\<bar>x\<bar>\<rfloor> \<le> 8" by (subst bitlen_le_iff_power) simp
  then show ?thesis using True by (simp add: ilog2_def)
next
  case False
  have "0 \<le> bitlen (\<lceil>1 / \<bar>x\<bar>\<rceil> - 1)" by (rule bitlen_nonneg)
  then show ?thesis using False by (simp add: ilog2_def)
qed

text \<open>Below 256 the binary32 grid is finer than 1/65536.\<close>

lemma f32_ulp_small:
  assumes "\<bar>x\<bar> < 256"
  obtains j :: nat where "pow2 (max (- 149) (ilog2 x - (int 24 - 1))) = 1 / 2 ^ (16 + j)"
proof -
  let ?e = "max (- 149) (ilog2 x - (int 24 - 1))"
  have e: "?e \<le> - 16" using ilog2_le7 [OF assms] by simp
  then have "pow2 ?e = 1 / 2 ^ nat (- ?e)" by (simp add: pow2_def)
  moreover have "nat (- ?e) = 16 + (nat (- ?e) - 16)" using e by linarith
  ultimately have "pow2 ?e = 1 / 2 ^ (16 + (nat (- ?e) - 16))" by simp
  then show ?thesis by (rule that)
qed

lemma f32_le_half_int:
  assumes x: "0 \<le> x" and le: "x \<le> of_int k / 2" and k: "k < 512"
  shows "f32 x \<le> of_int k / 2"
proof (cases "x = 0")
  case True
  then show ?thesis using x le by (simp add: f32_def fp_round_def)
next
  case False
  then have pos: "0 < x" using x by simp
  have "\<bar>x\<bar> < 256" using x le k by simp
  then obtain j :: nat where j: "pow2 (max (- 149) (ilog2 x - (int 24 - 1))) = 1 / 2 ^ (16 + j)"
    by (rule f32_ulp_small)
  have "of_int k / 2 = of_int (k * 2 ^ (15 + j)) * pow2 (max (- 149) (ilog2 x - (int 24 - 1)))"
    unfolding j by (simp add: power_add)
  with pos le show ?thesis unfolding f32_def by (rule fp_round_le_grid)
qed

lemma f32_ge_half_int:
  assumes x: "0 \<le> x" and le: "of_int k / 2 \<le> x" and k: "x < 256"
  shows "of_int k / 2 \<le> f32 x"
proof (cases "x = 0")
  case True
  then show ?thesis using x le by (simp add: f32_def fp_round_def)
next
  case False
  then have pos: "0 < x" using x by simp
  have "\<bar>x\<bar> < 256" using x k by simp
  then obtain j :: nat where j: "pow2 (max (- 149) (ilog2 x - (int 24 - 1))) = 1 / 2 ^ (16 + j)"
    by (rule f32_ulp_small)
  have "of_int k / 2 = of_int (k * 2 ^ (15 + j)) * pow2 (max (- 149) (ilog2 x - (int 24 - 1)))"
    unfolding j by (simp add: power_add)
  with pos le show ?thesis unfolding f32_def by (rule fp_round_ge_grid)
qed

lemma f32_nonneg: "0 \<le> x \<Longrightarrow> 0 \<le> f32 x"
  unfolding f32_def by (rule fp_round_nonneg)

text \<open>With the opacity in \<open>[0, 1]\<close> the effective alpha is a byte, no larger than the overlay's alpha.\<close>

lemma src_alpha_bounds:
  assumes "0 \<le> op" "op \<le> 1"
  shows "0 \<le> src_alpha_of a op \<and> src_alpha_of a op \<le> uint a"
proof -
  define k where "k = uint a"
  have k255: "k \<le> 255" using uint_lt2p [of a] by (simp add: k_def)
  have k0: "0 \<le> k" by (simp add: k_def)
  let ?x = "of_int k * op"
  have sa: "src_alpha_of a op = float_to_int (f32 (f32 ?x + 1 / 2))"
    by (simp only: src_alpha_of_def k_def)
  have x0: "0 \<le> ?x" using assms k0 by simp
  have "?x \<le> of_int k * 1" using assms k0 by (intro mult_left_mono) simp_all
  then have xa: "?x \<le> of_int (2 * k) / 2" by simp
  have "f32 ?x \<le> of_int (2 * k) / 2"
    using x0 xa by (rule f32_le_half_int) (use k255 in simp)
  then have y: "f32 ?x + 1 / 2 \<le> of_int (2 * k + 1) / 2" by (simp add: add_divide_distrib)
  have y0: "0 \<le> f32 ?x" using x0 by (rule f32_nonneg)
  then have y0': "0 \<le> f32 ?x + 1 / 2" by simp
  have z: "f32 (f32 ?x + 1 / 2) \<le> of_int (2 * k + 1) / 2"
    using y0' y by (rule f32_le_half_int) (use k255 in simp)
  have z0: "0 \<le> f32 (f32 ?x + 1 / 2)" using y0' by (rule f32_nonneg)
  have "\<lfloor>f32 (f32 ?x + 1 / 2)\<rfloor> \<le> k"
    using z by (simp add: floor_le_iff add_divide_distrib) 
  then show ?thesis using z0 by (simp add: sa float_to_int_def k_def)
qed

lemma src_alpha_half: "src_alpha_of 255 (1 / 2) = 128"
  by code_simp

text \<open>
  The effective alpha against exact rounding: with the opacity in \<open>[0, 1]\<close> it is
  never below the exact product rounded half up, and at most one above it (binary32
  rounding of the product or of the sum can carry a value that lies just under a half
  up to it).
\<close>

lemma src_alpha_near_round:
  assumes "0 \<le> op" "op \<le> 1"
  shows "\<lfloor>of_int (uint a) * op + 1 / 2\<rfloor> \<le> src_alpha_of a op \<and>
         src_alpha_of a op \<le> \<lfloor>of_int (uint a) * op + 1 / 2\<rfloor> + 1"
proof -
  define k where "k = uint a"
  define x where "x = of_int k * op"
  define n where "n = \<lfloor>x + 1 / 2\<rfloor>"
  have k255: "k \<le> 255" using uint_lt2p [of a] by (simp add: k_def)
  have k0: "0 \<le> k" by (simp add: k_def)
  have sa: "src_alpha_of a op = float_to_int (f32 (f32 x + 1 / 2))"
    by (simp only: src_alpha_of_def k_def x_def)
  have x0: "0 \<le> x" unfolding x_def using assms k0 by simp
  have "x \<le> of_int k * 1" unfolding x_def using assms k0 by (intro mult_left_mono) simp_all
  then have xk: "x \<le> of_int k" by simp
  then have x256: "x < 256" using k255 by (simp add: order_le_less_trans [of x "of_int k" 256])
  have xa: "x \<le> of_int (2 * k) / 2" using xk by simp
  have yk: "f32 x \<le> of_int (2 * k) / 2"
    using x0 xa by (rule f32_le_half_int) (use k255 in simp)
  have y0: "0 \<le> f32 x" using x0 by (rule f32_nonneg)
  then have s0: "0 \<le> f32 x + 1 / 2" by simp
  have s256: "f32 x + 1 / 2 < 256" using yk k255 by simp
  have z0: "0 \<le> f32 (f32 x + 1 / 2)" using s0 by (rule f32_nonneg)
  have n0: "0 \<le> n" unfolding n_def using x0 by simp
  have nle: "of_int n \<le> x + 1 / 2" unfolding n_def by simp
  have nlt: "x + 1 / 2 < of_int n + 1" unfolding n_def by linarith
  \<comment> \<open>lower bound\<close>
  have "of_int (2 * n - 1) / 2 \<le> x" using nle by (simp add: diff_divide_distrib)
  with x0 have "of_int (2 * n - 1) / 2 \<le> f32 x" using x256 by (rule f32_ge_half_int)
  then have "of_int (2 * n) / 2 \<le> f32 x + 1 / 2" by (simp add: diff_divide_distrib)
  with s0 have "of_int (2 * n) / 2 \<le> f32 (f32 x + 1 / 2)" using s256 by (rule f32_ge_half_int)
  then have lo: "n \<le> \<lfloor>f32 (f32 x + 1 / 2)\<rfloor>" by (simp add: le_floor_iff)
  \<comment> \<open>upper bound\<close>
  have n256: "n < 256" using nle xk k255 unfolding n_def by (simp add: floor_less_iff) 
  have "x \<le> of_int (2 * n + 1) / 2" using nlt by (simp add: add_divide_distrib)
  with x0 have "f32 x \<le> of_int (2 * n + 1) / 2"
    by (rule f32_le_half_int) (use n256 in simp)
  then have s1: "f32 x + 1 / 2 \<le> of_int (2 * (n + 1)) / 2" by (simp add: add_divide_distrib)
  have hi: "\<lfloor>f32 (f32 x + 1 / 2)\<rfloor> \<le> n + 1"
  proof (cases "n < 255")
    case True
    from s0 s1 have "f32 (f32 x + 1 / 2) \<le> of_int (2 * (n + 1)) / 2"
      by (rule f32_le_half_int) (use True in simp)
    then show ?thesis by (simp add: floor_le_iff)
  next
    case False
    have "src_alpha_of a op \<le> k"
      using src_alpha_bounds [OF assms, of a] by (simp add: k_def)
    then show ?thesis using False k255 z0 by (simp add: sa float_to_int_def)
  qed
  show ?thesis
    using lo hi z0 by (simp add: sa float_to_int_def n_def x_def k_def)
qed

lemma src_alpha_round:
  assumes "0 \<le> op" "op \<le> 1"
  shows "round (of_int (uint a) * op) \<le> src_alpha_of a op \<and>
         src_alpha_of a op \<le> round (of_int (uint a) * op) + 1"
  using src_alpha_near_round [OF assms, of a] by (simp only: round_def)

lemma c_div_nonneg: "0 \<le> a \<Longrightarrow> 0 < b \<Longrightarrow> c_div a b = a div b"
  by (cases "a = 0") (simp_all add: c_div_def sgn_if)

lemma blend_channel_uint:
  assumes "0 \<le> sa" "sa \<le> 255"
  shows "uint (blend_channel s d sa) = (uint s * sa + uint d * (255 - sa) + 127) div 255"
proof -
  define A where "A = uint s * sa"
  define B where "B = uint d * (255 - sa)"
  have s: "0 \<le> uint s" "uint s \<le> 255" using uint_lt2p [of s] by simp_all
  have d: "0 \<le> uint d" "uint d \<le> 255" using uint_lt2p [of d] by simp_all
  have A0: "0 \<le> A" unfolding A_def using s assms by (intro mult_nonneg_nonneg) simp_all
  have B0: "0 \<le> B" unfolding B_def using d assms by (intro mult_nonneg_nonneg) simp_all
  have "A \<le> 255 * sa" unfolding A_def by (rule mult_right_mono) (use s assms in simp_all)
  moreover have "B \<le> 255 * (255 - sa)" unfolding B_def
    by (rule mult_right_mono) (use d assms in simp_all)
  ultimately have "A + B + 127 \<le> 255 * 255 + 127" by simp
  then have "(A + B + 127) div 255 \<le> (255 * 255 + 127) div 255" by (rule zdiv_mono1) simp
  then have hi: "(A + B + 127) div 255 < 256" by simp
  have n0: "0 \<le> A + B + 127" using A0 B0 by simp
  then have lo: "0 \<le> (A + B + 127) div 255" by (simp add: pos_imp_zdiv_nonneg_iff)
  have "uint (blend_channel s d sa) = ((A + B + 127) div 255) mod 2 ^ 8"
    using n0 by (simp add: blend_channel_def c_div_nonneg uint_word_of_int A_def B_def)
  also have "\<dots> = (A + B + 127) div 255" using lo hi by simp
  finally show ?thesis by (simp add: A_def B_def)
qed

text \<open>The update leaves the opacity and the threshold in \<open>[0, 1]\<close>.\<close>

lemma update_clamps:
  "0 \<le> opacity (shape_overlay_filter_update cv filter' s) \<and>
   opacity (shape_overlay_filter_update cv filter' s) \<le> 1 \<and>
   0 \<le> threshold (shape_overlay_filter_update cv filter' s) \<and>
   threshold (shape_overlay_filter_update cv filter' s) \<le> 1"
  by (simp add: shape_overlay_filter_update_def Let_def clamp_def)

text \<open>The fields of the fixtures.\<close>

lemma filter5_fields:
  "\<not> mat_empty (template_gray filter5)" "\<not> mat_empty (overlay_draw filter5)"
  "interval_ms filter5 = 1000" "last_detect_ts filter5 = 5000000000"
  "threshold filter5 = 3 / 4" "only_when_matched filter5" "last_valid filter5"
  "last_x filter5 = 2" "last_y filter5 = 0" "template_gray filter5 = gray_mat 1 1"
  by (simp_all add: filter5_def new_filter_data_def mat_empty_def gray_mat_def overlay2_def)

lemma frame32_fields:
  "format frame32 = VIDEO_FORMAT_BGRA" "width frame32 = 3" "height frame32 = 2"
  "linesize0 frame32 = 16"
  by (simp_all add: frame32_def)

section \<open>The matcher: theorems\<close>

lemma store_simps:
  "store None v = None" "store (Some w) v = Some v"
  by (simp_all add: store_def)

text \<open>
  C5. On a non-degenerate invocation (both images non-empty, the template no larger than
  the frame) \<^verbatim>\<open>detect_template\<close> returns true exactly when the maximum correlation is
  greater than or equal to the threshold: a maximum equal to the threshold is a match, a
  smaller one is not. The comparison is between the maximum that \<^verbatim>\<open>minMaxLoc\<close>
  reports and the threshold; when that maximum is a binary32 value (as every entry of the
  correlation surface is) the score handed to the caller is the same number.
\<close>

theorem detect_template_threshold:
  assumes "\<not> degenerate frame_gray templ_gray"
  shows
    "let mx = max_val (minMaxLoc cv (matchTemplate cv frame_gray templ_gray));
         res = detect_template cv frame_gray templ_gray threshold' outs
     in fst res = (threshold' \<le> mx) \<and>
        (mx = threshold' \<longrightarrow> fst res) \<and>
        (mx < threshold' \<longrightarrow> \<not> fst res) \<and>
        (f32 mx = mx \<longrightarrow> out_score (snd res) = store (out_score outs) mx)"
  using assms
  by (auto simp add: detect_template_def degenerate_def Let_def)

theorem detect_template_threshold_witness:
  "fst (detect_template (cv_const (4 / 5)) (gray_mat 2 2) (gray_mat 1 1) (4 / 5) outs0) \<and>
   \<not> fst (detect_template (cv_const (4 / 5 - 1 / 1000)) (gray_mat 2 2) (gray_mat 1 1) (4 / 5) outs0)"
proof -
  have nd: "\<not> degenerate (gray_mat 2 2) (gray_mat 1 1)"
    by (simp add: degenerate_def mat_empty_def gray_mat_def)
  show ?thesis
    using detect_template_threshold [OF nd, of "cv_const (4 / 5)" "4 / 5" outs0]
      detect_template_threshold [OF nd, of "cv_const (4 / 5 - 1 / 1000)" "4 / 5" outs0]
    by (simp add: cv_const_def Let_def)
qed

text \<open>
  C6. When the frame image is empty, the template image is empty, or the template is
  larger than the frame in width or in height, \<^verbatim>\<open>detect_template\<close> returns false
  and leaves every out-parameter, the match location included, as it was. The result
  does not depend on the collaborator: no OpenCV routine is reached.
\<close>

theorem detect_template_fail_closed:
  assumes "degenerate frame_gray templ_gray"
  shows "detect_template cv frame_gray templ_gray threshold' outs = (False, outs)"
  using assms
  by (auto simp add: detect_template_def degenerate_def)

theorem detect_template_fail_closed_witness:
  "detect_template (cv_const 1) (gray_mat 2 2) (gray_mat 3 1) (4 / 5) outs0 = (False, outs0) \<and>
   detect_template (cv_const 1) Mat (gray_mat 1 1) (4 / 5) outs0 = (False, outs0)"
proof -
  have "degenerate (gray_mat 2 2) (gray_mat 3 1)" "degenerate Mat (gray_mat 1 1)"
    by (simp_all add: degenerate_def mat_empty_def gray_mat_def Mat_def)
  then show ?thesis
    using detect_template_fail_closed [of "gray_mat 2 2" "gray_mat 3 1" "cv_const 1" "4 / 5" outs0]
      detect_template_fail_closed [of Mat "gray_mat 1 1" "cv_const 1" "4 / 5" outs0]
    by simp
qed

text \<open>
  C4, as the code has it. On a non-degenerate invocation the score output is written
  with the (binary32) maximum correlation whether or not the match succeeds, so the
  caller sees sub-threshold scores. On the fail-closed inputs (empty frame, empty
  template, template larger than the frame) the function returns before the score is
  assigned: the score output keeps the value the caller had put there.
\<close>

theorem detect_template_score:
  "out_score (snd (detect_template cv frame_gray templ_gray threshold' outs)) =
     (if degenerate frame_gray templ_gray then out_score outs
      else store (out_score outs)
             (f32 (max_val (minMaxLoc cv (matchTemplate cv frame_gray templ_gray)))))"
  by (auto simp add: detect_template_def degenerate_def Let_def)

theorem detect_template_score_witness:
  "out_score (snd (detect_template (cv_const (1 / 2)) (gray_mat 2 2) (gray_mat 1 1) (4 / 5) outs0))
     = Some (1 / 2)"
proof -
  have "\<not> degenerate (gray_mat 2 2) (gray_mat 1 1)"
    by (simp add: degenerate_def mat_empty_def gray_mat_def)
  moreover have "f32 (1 / 2) = 1 / 2" by code_simp
  ultimately show ?thesis
    using detect_template_score [of "cv_const (1 / 2)" "gray_mat 2 2" "gray_mat 1 1" "4 / 5" outs0]
    by (simp add: cv_const_def outs0_def store_simps)
qed

text \<open>
  C4, as stated, fails: with an empty frame, and with a template larger than the frame,
  the score variable holds after the call what it held before (1/4, then 3/4), although
  the collaborator would have reported 9/10.
\<close>

theorem detect_template_score_unwritten:
  "out_score (snd (detect_template (cv_const (9 / 10)) Mat (gray_mat 1 1) (4 / 5)
       (outs0\<lparr>out_score := Some (1 / 4)\<rparr>))) = Some (1 / 4) \<and>
   out_score (snd (detect_template (cv_const (9 / 10)) (gray_mat 1 1) (gray_mat 2 2) (4 / 5)
       (outs0\<lparr>out_score := Some (3 / 4)\<rparr>))) = Some (3 / 4)"
  by (simp add: detect_template_def mat_empty_def Mat_def gray_mat_def outs0_def)

section \<open>The compositor: theorems\<close>

declare blend_cols.simps [simp del] blend_rows.simps [simp del]

lemma blend_pixel_outside:
  "i < p \<or> p + 4 \<le> i \<Longrightarrow> blend_pixel src sp p op dst i = dst i"
  by (auto simp add: blend_pixel_def Let_def)

lemma blend_pixel_local:
  assumes "\<And>c. c < 4 \<Longrightarrow> dst (p + c) = dst' (p + c)" and "c < 4"
  shows "blend_pixel src sp p op dst (p + c) = blend_pixel src sp p op dst' (p + c)"
proof -
  have "dst p = dst' p" "dst (p + 1) = dst' (p + 1)" "dst (p + 2) = dst' (p + 2)"
    "dst (p + 3) = dst' (p + 3)"
    using assms(1) [of 0] assms(1) [of 1] assms(1) [of 2] assms(1) [of 3] by simp_all
  moreover have "c = 0 \<or> c = 1 \<or> c = 2 \<or> c = 3" using assms(2) by arith
  ultimately show ?thesis
    by (auto simp add: blend_pixel_def Let_def)
qed

text \<open>The bytes of a pixel after \<open>blend_pixel\<close>, read off the definition.\<close>

lemma blend_pixel_bytes:
  "blend_pixel src sp p op dst (p + c) =
     (let sa = src_alpha_of (src (sp + 3)) op in
      if sa \<le> 0 \<or> 4 \<le> c then dst (p + c)
      else if c = 3 then 255
      else blend_channel (src (sp + c)) (dst (p + c)) sa)"
proof -
  consider "c = 0" | "c = 1" | "c = 2" | "c = 3" | "4 \<le> c" by arith
  then show ?thesis
    by cases (auto simp add: blend_pixel_def Let_def)
qed

lemma blend_cols_outside:
  "(\<And>k. fx \<le> k \<Longrightarrow> k < end_x \<Longrightarrow> i < dr + nat k * 4 \<or> dr + nat k * 4 + 4 \<le> i)
    \<Longrightarrow> blend_cols src sr dr op end_x ox fx dst i = dst i"
proof (induction src sr dr op end_x ox fx dst rule: blend_cols.induct)
  case (1 src sr dr op end_x ox fx dst)
  show ?case
  proof (cases "fx < end_x")
    case True
    have "blend_cols src sr dr op end_x ox fx dst i
      = blend_cols src sr dr op end_x (ox + 1) (fx + 1)
          (blend_pixel src (sr + nat ox * 4) (dr + nat fx * 4) op dst) i"
      using True by (subst blend_cols.simps) simp
    also have "\<dots> = blend_pixel src (sr + nat ox * 4) (dr + nat fx * 4) op dst i"
      using True "1.prems" by (intro "1.IH") simp_all
    also have "\<dots> = dst i"
      using "1.prems" [of fx] True by (intro blend_pixel_outside) simp
    finally show ?thesis .
  next
    case False
    then show ?thesis by (subst blend_cols.simps) simp
  qed
qed

lemma blend_cols_inside:
  "0 \<le> fx \<Longrightarrow> fx \<le> k \<Longrightarrow> k < end_x \<Longrightarrow> c < 4
    \<Longrightarrow> blend_cols src sr dr op end_x ox fx dst (dr + nat k * 4 + c)
        = blend_pixel src (sr + nat (ox + (k - fx)) * 4) (dr + nat k * 4) op dst (dr + nat k * 4 + c)"
proof (induction src sr dr op end_x ox fx dst rule: blend_cols.induct)
  case (1 src sr dr op end_x ox fx dst)
  let ?d1 = "blend_pixel src (sr + nat ox * 4) (dr + nat fx * 4) op dst"
  have lt: "fx < end_x" using "1.prems" by simp
  have unf: "blend_cols src sr dr op end_x ox fx dst (dr + nat k * 4 + c)
      = blend_cols src sr dr op end_x (ox + 1) (fx + 1) ?d1 (dr + nat k * 4 + c)"
    using lt by (subst blend_cols.simps) simp
  show ?case
  proof (cases "k = fx")
    case True
    have "blend_cols src sr dr op end_x (ox + 1) (fx + 1) ?d1 (dr + nat k * 4 + c)
        = ?d1 (dr + nat k * 4 + c)"
    proof (rule blend_cols_outside)
      fix j assume "fx + 1 \<le> j" "j < end_x"
      then have "nat k < nat j" using True "1.prems" by simp
      then show "dr + nat k * 4 + c < dr + nat j * 4 \<or> dr + nat j * 4 + 4 \<le> dr + nat k * 4 + c"
        using \<open>c < 4\<close> by arith
    qed
    then show ?thesis using unf True by simp
  next
    case False
    then have k: "fx + 1 \<le> k" using "1.prems" by simp
    have "blend_cols src sr dr op end_x (ox + 1) (fx + 1) ?d1 (dr + nat k * 4 + c)
        = blend_pixel src (sr + nat (ox + 1 + (k - (fx + 1))) * 4) (dr + nat k * 4) op ?d1
            (dr + nat k * 4 + c)"
      using lt k "1.prems" by (intro "1.IH") simp_all
    also have "\<dots> = blend_pixel src (sr + nat (ox + 1 + (k - (fx + 1))) * 4) (dr + nat k * 4) op dst
            (dr + nat k * 4 + c)"
    proof (rule blend_pixel_local)
      fix c' :: nat assume "c' < 4"
      have "nat fx < nat k" using k "1.prems" by simp
      then show "?d1 (dr + nat k * 4 + c') = dst (dr + nat k * 4 + c')"
        by (intro blend_pixel_outside) arith
    qed (rule \<open>c < 4\<close>)
    finally show ?thesis using unf by (simp add: algebra_simps)
  qed
qed

lemma row_below:
  assumes "0 \<le> a" "a < b" "0 \<le> x" "x < ex" "4 * ex \<le> int ls"
  shows "nat a * ls + nat x * 4 + 4 \<le> nat b * ls"
proof -
  have "nat x * 4 + 4 \<le> ls" using assms by linarith
  moreover have "(nat a + 1) * ls \<le> nat b * ls"
    by (rule mult_le_mono1) (use assms in linarith)
  ultimately show ?thesis by (simp add: algebra_simps)
qed

lemma px_apart:
  assumes "0 \<le> a" "0 \<le> b" "a \<noteq> b" "0 \<le> x" "x < ex" "0 \<le> x'" "x' < ex" "4 * ex \<le> int ls"
    and "c < 4"
  shows "px_off ls x a + c < px_off ls x' b \<or> px_off ls x' b + 4 \<le> px_off ls x a + c"
proof (cases "a < b")
  case True
  from row_below [OF assms(1) True assms(4,5,8)] assms(9) show ?thesis
    by (simp add: px_off_def)
next
  case False
  then have "b < a" using assms(3) by simp
  from row_below [OF assms(2) this assms(6,7,8)] show ?thesis
    by (simp add: px_off_def)
qed

lemma blend_rows_outside:
  "(\<And>kx ky. fy \<le> ky \<Longrightarrow> ky < end_y \<Longrightarrow> sx \<le> kx \<Longrightarrow> kx < end_x
      \<Longrightarrow> i < px_off ls kx ky \<or> px_off ls kx ky + 4 \<le> i)
    \<Longrightarrow> blend_rows ov ls op ox0 sx end_x end_y oy fy dst i = dst i"
proof (induction ov ls op ox0 sx end_x end_y oy fy dst rule: blend_rows.induct)
  case (1 ov ls op ox0 sx end_x end_y oy fy dst)
  show ?case
  proof (cases "fy < end_y")
    case True
    let ?d1 = "blend_cols (data ov) (nat oy * step ov) (nat fy * ls) op end_x ox0 sx dst"
    have "blend_rows ov ls op ox0 sx end_x end_y oy fy dst i
      = blend_rows ov ls op ox0 sx end_x end_y (oy + 1) (fy + 1) ?d1 i"
      using True by (subst blend_rows.simps) simp
    also have "\<dots> = ?d1 i"
      using True "1.prems" by (intro "1.IH") simp_all
    also have "\<dots> = dst i"
    proof (rule blend_cols_outside)
      fix k assume "sx \<le> k" "k < end_x"
      then show "i < nat fy * ls + nat k * 4 \<or> nat fy * ls + nat k * 4 + 4 \<le> i"
        using "1.prems" [of fy k] True by (simp add: px_off_def)
    qed
    finally show ?thesis .
  next
    case False
    then show ?thesis by (subst blend_rows.simps) simp
  qed
qed

lemma blend_rows_inside:
  "0 \<le> fy \<Longrightarrow> 0 \<le> sx \<Longrightarrow> 4 * end_x \<le> int ls \<Longrightarrow> fy \<le> ky \<Longrightarrow> ky < end_y
    \<Longrightarrow> sx \<le> kx \<Longrightarrow> kx < end_x \<Longrightarrow> c < 4
    \<Longrightarrow> blend_rows ov ls op ox0 sx end_x end_y oy fy dst (px_off ls kx ky + c)
        = blend_pixel (data ov) (nat (oy + (ky - fy)) * step ov + nat (ox0 + (kx - sx)) * 4)
            (px_off ls kx ky) op dst (px_off ls kx ky + c)"
proof (induction ov ls op ox0 sx end_x end_y oy fy dst rule: blend_rows.induct)
  case (1 ov ls op ox0 sx end_x end_y oy fy dst)
  let ?d1 = "blend_cols (data ov) (nat oy * step ov) (nat fy * ls) op end_x ox0 sx dst"
  let ?p = "px_off ls kx ky"
  have lt: "fy < end_y" using "1.prems" by simp
  have kx0: "0 \<le> kx" using "1.prems" by simp
  have unf: "blend_rows ov ls op ox0 sx end_x end_y oy fy dst (?p + c)
      = blend_rows ov ls op ox0 sx end_x end_y (oy + 1) (fy + 1) ?d1 (?p + c)"
    using lt by (subst blend_rows.simps) simp
  show ?case
  proof (cases "ky = fy")
    case True
    have "blend_rows ov ls op ox0 sx end_x end_y (oy + 1) (fy + 1) ?d1 (?p + c) = ?d1 (?p + c)"
    proof (rule blend_rows_outside)
      fix jx jy assume j: "fy + 1 \<le> jy" "jy < end_y" "sx \<le> jx" "jx < end_x"
      show "?p + c < px_off ls jx jy \<or> px_off ls jx jy + 4 \<le> ?p + c"
        by (rule px_apart [where ex = end_x]) (use j True "1.prems" kx0 in simp_all)
    qed
    also have "\<dots> = blend_pixel (data ov) (nat oy * step ov + nat (ox0 + (kx - sx)) * 4)
            (nat fy * ls + nat kx * 4) op dst (nat fy * ls + nat kx * 4 + c)"
      unfolding px_off_def True using "1.prems" by (intro blend_cols_inside) simp_all
    finally show ?thesis using unf True by (simp add: px_off_def)
  next
    case False
    then have k: "fy + 1 \<le> ky" using "1.prems" by simp
    have "blend_rows ov ls op ox0 sx end_x end_y (oy + 1) (fy + 1) ?d1 (?p + c)
        = blend_pixel (data ov) (nat (oy + 1 + (ky - (fy + 1))) * step ov + nat (ox0 + (kx - sx)) * 4)
            ?p op ?d1 (?p + c)"
      using lt k "1.prems" by (intro "1.IH") simp_all
    also have "\<dots> = blend_pixel (data ov) (nat (oy + 1 + (ky - (fy + 1))) * step ov + nat (ox0 + (kx - sx)) * 4)
            ?p op dst (?p + c)"
    proof (rule blend_pixel_local)
      fix c' :: nat assume c': "c' < 4"
      show "?d1 (?p + c') = dst (?p + c')"
      proof (rule blend_cols_outside)
        fix j assume j: "sx \<le> j" "j < end_x"
        have "?p + c' < px_off ls j fy \<or> px_off ls j fy + 4 \<le> ?p + c'"
          by (rule px_apart [where ex = end_x]) (use j k c' "1.prems" kx0 in simp_all)
        then show "?p + c' < nat fy * ls + nat j * 4 \<or> nat fy * ls + nat j * 4 + 4 \<le> ?p + c'"
          by (simp add: px_off_def)
      qed
    qed (rule \<open>c < 4\<close>)
    finally show ?thesis using unf by (simp add: algebra_simps)
  qed
qed

lemma in_rect_not_empty:
  "in_rect frame_w frame_h overlay dst_x dst_y fx fy \<Longrightarrow> \<not> mat_empty overlay"
  by (auto simp add: in_rect_def mat_empty_def)

lemma blend_overlay_at_pixel:
  assumes r: "in_rect frame_w frame_h overlay dst_x dst_y fx fy"
    and w: "4 * frame_w \<le> int (unat ls)" and c: "c < 4"
  shows "blend_overlay_bgra dst ls frame_w frame_h overlay dst_x dst_y op (px_off (unat ls) fx fy + c)
       = blend_pixel (data overlay) (nat (fy - dst_y) * step overlay + nat (fx - dst_x) * 4)
           (px_off (unat ls) fx fy) op dst (px_off (unat ls) fx fy + c)"
proof -
  let ?sx = "max 0 dst_x" and ?sy = "max 0 dst_y"
  let ?ex = "min frame_w (dst_x + int (cols overlay))"
  let ?ey = "min frame_h (dst_y + int (rows overlay))"
  have b: "?sx \<le> fx" "fx < ?ex" "?sy \<le> fy" "fy < ?ey"
    using r by (simp_all add: in_rect_def)
  have ne: "\<not> mat_empty overlay" using r by (rule in_rect_not_empty)
  have go: "\<not> (?sx \<ge> ?ex \<or> ?sy \<ge> ?ey)" using b by linarith
  have "blend_overlay_bgra dst ls frame_w frame_h overlay dst_x dst_y op
      = blend_rows overlay (unat ls) op (?sx - dst_x) ?sx ?ex ?ey (?sy - dst_y) ?sy dst"
    using ne go by (simp add: blend_overlay_bgra_def Let_def)
  moreover have "blend_rows overlay (unat ls) op (?sx - dst_x) ?sx ?ex ?ey (?sy - dst_y) ?sy dst
        (px_off (unat ls) fx fy + c)
      = blend_pixel (data overlay)
          (nat (?sy - dst_y + (fy - ?sy)) * step overlay + nat (?sx - dst_x + (fx - ?sx)) * 4)
          (px_off (unat ls) fx fy) op dst (px_off (unat ls) fx fy + c)"
  proof (rule blend_rows_inside)
    have "4 * ?ex \<le> 4 * frame_w" by simp
    then show "4 * ?ex \<le> int (unat ls)" using w by (rule order_trans)
  qed (use b c in simp_all)
  moreover have "?sy - dst_y + (fy - ?sy) = fy - dst_y" "?sx - dst_x + (fx - ?sx) = fx - dst_x"
    by simp_all
  ultimately show ?thesis by simp
qed

lemma blend_overlay_outside:
  assumes "\<And>fx fy. in_rect frame_w frame_h overlay dst_x dst_y fx fy
             \<Longrightarrow> i < px_off (unat ls) fx fy \<or> px_off (unat ls) fx fy + 4 \<le> i"
  shows "blend_overlay_bgra dst ls frame_w frame_h overlay dst_x dst_y op i = dst i"
proof -
  let ?sx = "max 0 dst_x" and ?sy = "max 0 dst_y"
  let ?ex = "min frame_w (dst_x + int (cols overlay))"
  let ?ey = "min frame_h (dst_y + int (rows overlay))"
  have "blend_rows overlay (unat ls) op (?sx - dst_x) ?sx ?ex ?ey (?sy - dst_y) ?sy dst i = dst i"
  proof (rule blend_rows_outside)
    fix kx ky assume "?sy \<le> ky" "ky < ?ey" "?sx \<le> kx" "kx < ?ex"
    then have "in_rect frame_w frame_h overlay dst_x dst_y kx ky"
      by (simp add: in_rect_def)
    then show "i < px_off (unat ls) kx ky \<or> px_off (unat ls) kx ky + 4 \<le> i"
      by (rule assms)
  qed
  then show ?thesis by (simp add: blend_overlay_bgra_def Let_def)
qed

text \<open>
  C3, as the code has it. Let \<open>(fx, fy)\<close> be a destination pixel inside the
  intersection rectangle of a frame whose rows are at least \<open>4 * frame_w\<close> bytes apart,
  and let the opacity be in \<open>[0, 1]\<close> (as \<^verbatim>\<open>shape_overlay_filter_update\<close> clamps
  it). The effective source alpha \<open>sa\<close> is
  \<^verbatim>\<open>static_cast<int>(static_cast<float>(alpha) * opacity + 0.5f)\<close> in binary32
  arithmetic: the product rounded to the nearest binary32 value, one half added and the
  sum rounded again, the result truncated. It is the exact product rounded to the nearest
  integer, or one more, never less, and lies between 0 and 255. If \<open>sa = 0\<close> the four
  bytes of the destination pixel are untouched; otherwise each of the three colour bytes
  becomes \<open>(src * sa + dst * (255 - sa) + 127) div 255\<close> in integer arithmetic and the
  alpha byte becomes 255. With overlay alpha 255 and opacity 1/2, \<open>sa = 128\<close> and the
  colour bytes are \<open>(src * 128 + dst * 127 + 127) div 255\<close>.
\<close>

theorem blend_pixel_formula:
  assumes "in_rect frame_w frame_h overlay dst_x dst_y fx fy"
    and "4 * frame_w \<le> int (unat dst_linesize)"
    and "0 \<le> opacity'" and "opacity' \<le> 1"
  shows
    "let p = px_off (unat dst_linesize) fx fy;
         q = nat (fy - dst_y) * step overlay + nat (fx - dst_x) * 4;
         alpha = data overlay (q + 3);
         sa = float_to_int (f32 (f32 (of_int (uint alpha) * opacity') + 1 / 2));
         out = blend_overlay_bgra dst dst_linesize frame_w frame_h overlay dst_x dst_y opacity'
     in sa = src_alpha_of alpha opacity' \<and>
        round (of_int (uint alpha) * opacity') \<le> sa \<and>
        sa \<le> round (of_int (uint alpha) * opacity') + 1 \<and>
        0 \<le> sa \<and> sa \<le> 255 \<and>
        (sa = 0 \<longrightarrow> (\<forall>c<4. out (p + c) = dst (p + c))) \<and>
        (sa \<noteq> 0 \<longrightarrow>
           (\<forall>c<3. uint (out (p + c)) =
                     (uint (data overlay (q + c)) * sa + uint (dst (p + c)) * (255 - sa) + 127) div 255) \<and>
           out (p + 3) = 255) \<and>
        (alpha = 255 \<and> opacity' = 1 / 2 \<longrightarrow>
           sa = 128 \<and>
           (\<forall>c<3. uint (out (p + c)) =
                     (uint (data overlay (q + c)) * 128 + uint (dst (p + c)) * 127 + 127) div 255) \<and>
           out (p + 3) = 255)"
proof -
  define p where "p = px_off (unat dst_linesize) fx fy"
  define q where "q = nat (fy - dst_y) * step overlay + nat (fx - dst_x) * 4"
  define alpha where "alpha = data overlay (q + 3)"
  define sa where "sa = float_to_int (f32 (f32 (of_int (uint alpha) * opacity') + 1 / 2))"
  define out where
    "out = blend_overlay_bgra dst dst_linesize frame_w frame_h overlay dst_x dst_y opacity'"
  have sa': "sa = src_alpha_of alpha opacity'"
    by (simp only: sa_def src_alpha_of_def)
  have near: "round (of_int (uint alpha) * opacity') \<le> sa"
    "sa \<le> round (of_int (uint alpha) * opacity') + 1"
    using src_alpha_round [OF assms(3,4), of alpha] by (simp_all only: sa')
  have bounds: "0 \<le> sa" "sa \<le> 255"
    using src_alpha_bounds [OF assms(3,4), of alpha] uint_lt2p [of alpha]
    by (simp_all add: sa')
  have at: "out (p + c) = blend_pixel (data overlay) q p opacity' dst (p + c)" if "c < 4" for c
    unfolding out_def p_def q_def using assms(1,2) that by (rule blend_overlay_at_pixel)
  have zero: "out (p + c) = dst (p + c)" if "sa = 0" "c < 4" for c
    using that by (simp add: at blend_pixel_bytes sa' alpha_def)
  have col: "uint (out (p + c)) =
      (uint (data overlay (q + c)) * sa + uint (dst (p + c)) * (255 - sa) + 127) div 255"
    if "sa \<noteq> 0" "c < 3" for c
  proof -
    have "out (p + c) = blend_channel (data overlay (q + c)) (dst (p + c)) sa"
      using that bounds by (simp add: at blend_pixel_bytes sa' alpha_def)
    then show ?thesis using bounds by (simp add: blend_channel_uint)
  qed
  have al: "out (p + 3) = 255" if "sa \<noteq> 0"
    using that bounds by (simp add: at blend_pixel_bytes sa' alpha_def)
  have half: "sa = 128" if "alpha = 255" "opacity' = 1 / 2"
    unfolding sa' that by (rule src_alpha_half)
  show ?thesis
    unfolding Let_def p_def [symmetric] q_def [symmetric] alpha_def [symmetric]
      sa_def [symmetric] out_def [symmetric]
    using sa' near bounds zero col al half by auto
qed

theorem blend_pixel_formula_witness:
  "uint (blend_overlay_bgra (\<lambda>_. 10) 16 3 2 overlay2 2 0 (1 / 2) 8) = 105 \<and>
   blend_overlay_bgra (\<lambda>_. 10) 16 3 2 overlay2 2 0 (1 / 2) 11 = 255"
proof -
  have r: "in_rect 3 2 overlay2 2 0 2 0"
    by (simp add: in_rect_def overlay2_def)
  have w: "4 * 3 \<le> int (unat (16 :: u32))" by simp
  have o: "(0::rat) \<le> 1 / 2" "(1::rat) / 2 \<le> 1" by simp_all
  have a: "data overlay2 3 = 255" by (simp add: overlay2_def)
  have d: "data overlay2 0 = 200" by (simp add: overlay2_def)
  have p: "px_off 16 2 0 = 8" by (simp add: px_off_def)
  note t = blend_pixel_formula [OF r w o, of "\<lambda>_. 10", unfolded Let_def]
  from t have "data overlay2 (nat (0 - 0) * step overlay2 + nat (2 - 2) * 4 + 3) = 255 \<and> (1::rat) / 2 = 1 / 2 \<longrightarrow>
     (\<forall>c<3. uint (blend_overlay_bgra (\<lambda>_. 10) 16 3 2 overlay2 2 0 (1 / 2)
                    (px_off (unat (16 :: u32)) 2 0 + c)) =
            (uint (data overlay2 (nat (0 - 0) * step overlay2 + nat (2 - 2) * 4 + c)) * 128
               + uint (10 :: u8) * 127 + 127) div 255) \<and>
     blend_overlay_bgra (\<lambda>_. 10) 16 3 2 overlay2 2 0 (1 / 2) (px_off (unat (16 :: u32)) 2 0 + 3) = 255"
    by blast
  then have c: "\<forall>c<3. uint (blend_overlay_bgra (\<lambda>_. 10) 16 3 2 overlay2 2 0 (1 / 2) (8 + c)) =
                     (uint (data overlay2 c) * 128 + 10 * 127 + 127) div 255"
    and al: "blend_overlay_bgra (\<lambda>_. 10) 16 3 2 overlay2 2 0 (1 / 2) (8 + 3) = 255"
    by (simp_all add: p a)
  from c [rule_format, of 0] al show ?thesis by (simp add: d)
qed

text \<open>
  C3, as stated, fails: the effective alpha is not always the rounded product. With the
  opacity the update stores for 1 percent (the binary32 value nearest to the double
  1/100) and overlay alpha 50, the exact product is just below one half and rounds to 0,
  but its binary32 rounding is one half, so the code computes alpha 1 and blends: the
  pixel \<open>(10, 10, 10, 10)\<close> under the overlay pixel \<open>(200, 200, 200, 50)\<close> becomes
  \<open>(11, 11, 11, 255)\<close> where the claim leaves it untouched.
\<close>

theorem blend_alpha_not_exact_round:
  "round (of_int (uint (data overlay50 3)) * f32 (f64 (1 / 100))) = 0 \<and>
   src_alpha_of (data overlay50 3) (f32 (f64 (1 / 100))) = 1 \<and>
   blend_overlay_bgra (\<lambda>_. 10) 16 3 2 overlay50 0 0 (f32 (f64 (1 / 100))) 0 = 11 \<and>
   blend_overlay_bgra (\<lambda>_. 10) 16 3 2 overlay50 0 0 (f32 (f64 (1 / 100))) 3 = 255"
  by code_simp

text \<open>
  C7. \<^verbatim>\<open>blend_overlay_bgra\<close> modifies only bytes of destination pixels inside the
  intersection of the overlay rectangle (placed at \<open>(dst_x, dst_y)\<close>) with
  \<open>[0, frame_w) \<times> [0, frame_h)\<close>: a byte that belongs to no pixel of the intersection
  is unchanged; the whole call changes nothing when the overlay is empty or the
  intersection is empty; and in a frame whose rows are at least \<open>4 * frame_w\<close> bytes
  apart, every byte of every pixel outside the intersection is unchanged.
\<close>

theorem blend_clipped:
  "((\<forall>fx fy. in_rect frame_w frame_h overlay dst_x dst_y fx fy
        \<longrightarrow> i < px_off (unat dst_linesize) fx fy \<or> px_off (unat dst_linesize) fx fy + 4 \<le> i)
     \<longrightarrow> blend_overlay_bgra dst dst_linesize frame_w frame_h overlay dst_x dst_y opacity' i = dst i)
   \<and> (mat_empty overlay \<or> (\<forall>fx fy. \<not> in_rect frame_w frame_h overlay dst_x dst_y fx fy)
     \<longrightarrow> blend_overlay_bgra dst dst_linesize frame_w frame_h overlay dst_x dst_y opacity' = dst)
   \<and> (4 * frame_w \<le> int (unat dst_linesize) \<and> 0 \<le> gx \<and> gx < frame_w \<and> 0 \<le> gy \<and> c < 4
        \<and> \<not> in_rect frame_w frame_h overlay dst_x dst_y gx gy
     \<longrightarrow> blend_overlay_bgra dst dst_linesize frame_w frame_h overlay dst_x dst_y opacity'
           (px_off (unat dst_linesize) gx gy + c) = dst (px_off (unat dst_linesize) gx gy + c))"
proof (intro conjI impI)
  assume "\<forall>fx fy. in_rect frame_w frame_h overlay dst_x dst_y fx fy
        \<longrightarrow> i < px_off (unat dst_linesize) fx fy \<or> px_off (unat dst_linesize) fx fy + 4 \<le> i"
  then show "blend_overlay_bgra dst dst_linesize frame_w frame_h overlay dst_x dst_y opacity' i = dst i"
    by (intro blend_overlay_outside) blast
next
  assume "mat_empty overlay \<or> (\<forall>fx fy. \<not> in_rect frame_w frame_h overlay dst_x dst_y fx fy)"
  then have none: "\<not> in_rect frame_w frame_h overlay dst_x dst_y fx fy" for fx fy
    using in_rect_not_empty by blast
  show "blend_overlay_bgra dst dst_linesize frame_w frame_h overlay dst_x dst_y opacity' = dst"
  proof
    fix j
    show "blend_overlay_bgra dst dst_linesize frame_w frame_h overlay dst_x dst_y opacity' j = dst j"
      by (rule blend_overlay_outside) (use none in blast)
  qed
next
  assume a: "4 * frame_w \<le> int (unat dst_linesize) \<and> 0 \<le> gx \<and> gx < frame_w \<and> 0 \<le> gy \<and> c < 4
        \<and> \<not> in_rect frame_w frame_h overlay dst_x dst_y gx gy"
  show "blend_overlay_bgra dst dst_linesize frame_w frame_h overlay dst_x dst_y opacity'
           (px_off (unat dst_linesize) gx gy + c) = dst (px_off (unat dst_linesize) gx gy + c)"
  proof (rule blend_overlay_outside)
    fix fx fy assume r: "in_rect frame_w frame_h overlay dst_x dst_y fx fy"
    then have f: "0 \<le> fx" "fx < frame_w" "0 \<le> fy" by (simp_all add: in_rect_def)
    have ne: "fx \<noteq> gx \<or> fy \<noteq> gy" using r a by auto
    have g: "0 \<le> gx" "gx < frame_w" "0 \<le> gy" "c < 4" using a by simp_all
    show "px_off (unat dst_linesize) gx gy + c < px_off (unat dst_linesize) fx fy
        \<or> px_off (unat dst_linesize) fx fy + 4 \<le> px_off (unat dst_linesize) gx gy + c"
    proof (cases "fy = gy")
      case True
      then have "fx \<noteq> gx" using ne by simp
      then have "nat fx \<noteq> nat gx" using f(1) g(1) by simp
      then show ?thesis using g True by (simp add: px_off_def) arith
    next
      case False
      show ?thesis
        by (rule px_apart [where ex = frame_w]) (use a f False in simp_all)
    qed
  qed
qed

theorem blend_clipped_witness:
  "blend_overlay_bgra (\<lambda>_. 10) 16 3 2 overlay2 2 0 1 4 = 10 \<and>
   blend_overlay_bgra (\<lambda>_. 10) 16 3 2 overlay2 5 0 1 = (\<lambda>_. 10) \<and>
   blend_overlay_bgra (\<lambda>_. 10) 16 3 2 overlay2 2 0 1 (px_off 16 1 1 + 2) = 10"
proof -
  have a: "\<forall>fx fy. in_rect 3 2 overlay2 2 0 fx fy
        \<longrightarrow> 4 < px_off (unat (16 :: u32)) fx fy \<or> px_off (unat (16 :: u32)) fx fy + 4 \<le> 4"
    by (auto simp add: in_rect_def overlay2_def px_off_def)
  have b: "\<forall>fx fy. \<not> in_rect 3 2 overlay2 5 0 fx fy"
    by (auto simp add: in_rect_def overlay2_def)
  have c: "\<not> in_rect 3 2 overlay2 2 0 1 1"
    by (simp add: in_rect_def overlay2_def)
  show ?thesis
    using blend_clipped [of 3 2 overlay2 2 0 4 16 "\<lambda>_. 10" 1 1 1 2]
      blend_clipped [of 3 2 overlay2 5 0 4 16 "\<lambda>_. 10" 1 1 1 2] a b c
    by simp
qed

section \<open>The filter: theorems\<close>

text \<open>
  C10. For a null frame \<^verbatim>\<open>shape_overlay_filter_video\<close> returns null at once: the
  instance (configuration and detection state) is unchanged, no detection is attempted
  and nothing is logged or composited.
\<close>

theorem video_null_frame:
  "shape_overlay_filter_video cv filter' None now =
     \<lparr>ret = None, filter_after = filter', events = []\<rparr>"
  by (simp add: shape_overlay_filter_video_def)

theorem video_null_frame_witness:
  "ret (shape_overlay_filter_video (cv_const 1) filter5 None 0) = None \<and>
   events (shape_overlay_filter_video (cv_const 1) filter5 None 0) = []"
  using video_null_frame [of "cv_const 1" filter5 0] by simp

text \<open>
  C9. A settings update sets \<open>last_valid\<close> to false and leaves the other fields of the
  detection state (\<open>last_detect_ts\<close>, \<open>last_x\<close>, \<open>last_y\<close>, \<open>last_score\<close>) as
  they were.
\<close>

theorem update_invalidates:
  "let f = shape_overlay_filter_update cv filter' s
   in last_valid f = False \<and>
      last_detect_ts f = last_detect_ts filter' \<and>
      last_x f = last_x filter' \<and>
      last_y f = last_y filter' \<and>
      last_score f = last_score filter'"
  by (simp add: shape_overlay_filter_update_def Let_def)

theorem update_invalidates_witness:
  "\<not> last_valid (shape_overlay_filter_update (cv_const 1) filter5 settings0) \<and>
   last_detect_ts (shape_overlay_filter_update (cv_const 1) filter5 settings0) = 5000000000 \<and>
   last_x (shape_overlay_filter_update (cv_const 1) filter5 settings0) = 2"
  using update_invalidates [of "cv_const 1" filter5 settings0]
  by (simp add: Let_def filter5_fields)

lemma update_warned:
  "warned_format (shape_overlay_filter_update cv filter' s) = warned_format filter'"
  by (simp add: shape_overlay_filter_update_def Let_def)

lemma detect_and_store_warned:
  "warned_format (detect_and_store cv filter' frame now) = warned_format filter'"
  by (simp add: detect_and_store_def Let_def split: prod.splits)

lemma video_warned:
  "warned_format filter' \<Longrightarrow>
     warned_format (filter_after (shape_overlay_filter_video cv filter' fp now)) \<and>
     List.filter is_warning (events (shape_overlay_filter_video cv filter' fp now)) = []"
  by (auto simp add: shape_overlay_filter_video_def Let_def detect_and_store_warned
      split: option.splits)

lemma video_warns_once:
  "length (List.filter is_warning (events (shape_overlay_filter_video cv filter' fp now))) \<le> 1 \<and>
   (List.filter is_warning (events (shape_overlay_filter_video cv filter' fp now)) \<noteq> []
      \<longrightarrow> warned_format (filter_after (shape_overlay_filter_video cv filter' fp now)))"
  by (auto simp add: shape_overlay_filter_video_def Let_def split: option.splits)

lemma snd_run_Video:
  "snd (run cv filter' (Video fp now # cs)) =
     events (shape_overlay_filter_video cv filter' fp now) @
     snd (run cv (filter_after (shape_overlay_filter_video cv filter' fp now)) cs)"
  by (simp add: Let_def split_beta)

lemma run_warned:
  "warned_format filter' \<Longrightarrow> List.filter is_warning (snd (run cv filter' cs)) = []"
proof (induction cs arbitrary: filter')
  case Nil
  then show ?case by simp
next
  case (Cons a cs)
  show ?case
  proof (cases a)
    case (Update s)
    then show ?thesis using Cons by (simp add: update_warned)
  next
    case (Video fp now)
    from video_warned [OF Cons.prems, of cv fp now]
    show ?thesis using Video Cons.IH by (simp only: snd_run_Video filter_append) simp
  qed
qed

lemma run_warns_once:
  "length (List.filter is_warning (snd (run cv filter' cs))) \<le> 1"
proof (induction cs arbitrary: filter')
  case Nil
  then show ?case by simp
next
  case (Cons a cs)
  show ?case
  proof (cases a)
    case (Update s)
    then show ?thesis using Cons by simp
  next
    case (Video fp now)
    let ?r = "shape_overlay_filter_video cv filter' fp now"
    show ?thesis
    proof (cases "List.filter is_warning (events ?r) = []")
      case True
      then show ?thesis using Video Cons.IH [of "filter_after ?r"]
        by (simp only: snd_run_Video filter_append) simp
    next
      case False
      then have "warned_format (filter_after ?r)" using video_warns_once [of cv filter' fp now] by simp
      then have "List.filter is_warning (snd (run cv (filter_after ?r) cs)) = []" by (rule run_warned)
      then show ?thesis using Video video_warns_once [of cv filter' fp now]
        by (simp only: snd_run_Video filter_append) simp
    qed
  qed
qed

text \<open>
  C8. For a frame whose format is neither BGRA nor BGRX, the same frame is returned
  unchanged and the instance is unchanged but for the \<open>warned_format\<close> flag (so no
  field of the detection state changes). The warning is logged exactly when the flag
  was not yet set; after the call no sequence of calls on the instance logs it again,
  and over the whole life of an instance, from its creation, it is logged at most once.
\<close>

theorem video_unsupported_format:
  assumes "format frame \<noteq> VIDEO_FORMAT_BGRA" and "format frame \<noteq> VIDEO_FORMAT_BGRX"
  shows
    "let r = shape_overlay_filter_video cv filter' (Some frame) now
     in ret r = Some frame \<and>
        filter_after r = filter'\<lparr>warned_format := True\<rparr> \<and>
        last_detect_ts (filter_after r) = last_detect_ts filter' \<and>
        last_x (filter_after r) = last_x filter' \<and>
        last_y (filter_after r) = last_y filter' \<and>
        last_score (filter_after r) = last_score filter' \<and>
        last_valid (filter_after r) = last_valid filter' \<and>
        events r = (if warned_format filter' then [] else [Blog_warning (format frame)]) \<and>
        (\<forall>cs. List.filter is_warning (snd (run cv (filter_after r) cs)) = []) \<and>
        (\<forall>s source' cs.
           length (List.filter is_warning
                     (snd (run cv (shape_overlay_filter_create cv s source') cs))) \<le> 1)"
proof -
  let ?r = "shape_overlay_filter_video cv filter' (Some frame) now"
  have fa: "filter_after ?r = filter'\<lparr>warned_format := True\<rparr>"
    using assms by (simp add: shape_overlay_filter_video_def)
  have "ret ?r = Some frame"
    using assms by (simp add: shape_overlay_filter_video_def)
  moreover have "events ?r = (if warned_format filter' then [] else [Blog_warning (format frame)])"
    using assms by (simp add: shape_overlay_filter_video_def)
  moreover have "List.filter is_warning (snd (run cv (filter_after ?r) cs)) = []" for cs
    by (rule run_warned) (simp add: fa)
  ultimately show ?thesis
    using run_warns_once [of cv] by (simp add: Let_def fa)
qed

theorem video_unsupported_format_witness:
  "events (shape_overlay_filter_video (cv_const 1) filter5
             (Some (frame32\<lparr>format := VIDEO_FORMAT_OTHER 1\<rparr>)) 0)
     = [Blog_warning (VIDEO_FORMAT_OTHER 1)] \<and>
   events (shape_overlay_filter_video (cv_const 1) (filter5\<lparr>warned_format := True\<rparr>)
             (Some (frame32\<lparr>format := VIDEO_FORMAT_OTHER 1\<rparr>)) 0) = []"
proof -
  have f: "format (frame32\<lparr>format := VIDEO_FORMAT_OTHER 1\<rparr>) \<noteq> VIDEO_FORMAT_BGRA"
    "format (frame32\<lparr>format := VIDEO_FORMAT_OTHER 1\<rparr>) \<noteq> VIDEO_FORMAT_BGRX"
    by simp_all
  have w: "\<not> warned_format filter5" by (simp add: filter5_def new_filter_data_def)
  show ?thesis
    using video_unsupported_format [OF f, of "cv_const 1" filter5 0]
      video_unsupported_format [OF f, of "cv_const 1" "filter5\<lparr>warned_format := True\<rparr>" 0] w
    by (simp add: Let_def)
qed

text \<open>What a detection attempt writes, in terms of the matcher's result.\<close>

lemma detect_and_store_fields:
  "let frame_gray = cvtColor cv
            \<lparr>rows = nat (sint (height frame)), cols = nat (sint (width frame)),
             channels = 4, step = unat (linesize0 frame), data = data0 frame\<rparr> COLOR_BGRA2GRAY;
       res = detect_template cv frame_gray (template_gray filter') (threshold filter')
                 \<lparr>out_x = Some 0, out_y = Some 0, out_score = Some 0\<rparr>;
       f = detect_and_store cv filter' frame now
   in last_detect_ts f = now \<and>
      out_score (snd res) = Some (last_score f) \<and>
      last_valid f = (fst res \<or> (last_valid filter' \<and> \<not> only_when_matched filter')) \<and>
      (fst res \<longrightarrow> out_x (snd res) = Some (last_x f) \<and> out_y (snd res) = Some (last_y f)) \<and>
      (\<not> fst res \<longrightarrow> last_x f = last_x filter' \<and> last_y f = last_y filter') \<and>
      offset_x f = offset_x filter' \<and> offset_y f = offset_y filter'"
proof -
  define frame_gray where "frame_gray = cvtColor cv
            \<lparr>rows = nat (sint (height frame)), cols = nat (sint (width frame)),
             channels = 4, step = unat (linesize0 frame), data = data0 frame\<rparr> COLOR_BGRA2GRAY"
  define res where "res = detect_template cv frame_gray (template_gray filter') (threshold filter')
                 \<lparr>out_x = Some 0, out_y = Some 0, out_score = Some 0\<rparr>"
  have "\<exists>x y s. snd res = \<lparr>out_x = Some x, out_y = Some y, out_score = Some s\<rparr>"
    by (auto simp add: res_def detect_template_def Let_def store_simps)
  then obtain x y s where s: "snd res = \<lparr>out_x = Some x, out_y = Some y, out_score = Some s\<rparr>"
    by blast
  obtain m where m: "res = (m, \<lparr>out_x = Some x, out_y = Some y, out_score = Some s\<rparr>)"
    using s by (cases res) simp
  show ?thesis
    unfolding Let_def frame_gray_def [symmetric] res_def [symmetric]
    unfolding detect_and_store_def Let_def frame_gray_def [symmetric] res_def [symmetric]
    by (auto simp add: m)
qed

text \<open>
  C1. For a frame in a supported format, with non-empty template and overlay, an attempt
  is made exactly when \<open>interval_ms = 0\<close> or the time elapsed since \<open>last_detect_ts\<close>
  is at least the interval (both in nanoseconds, as the code compares them: unsigned
  64-bit subtraction, the interval multiplied by 1000000). When one is due the matcher
  is invoked once on the grayscale frame and its result \<open>res\<close> is what the instance
  records: the timestamp becomes \<open>now\<close>, the score the reported one, validity and
  location follow the match, and the frame is composited from that new state. When none
  is due the instance is unchanged, and the frame is composited from the stored
  \<open>last_valid\<close>, \<open>last_x\<close>, \<open>last_y\<close>: blended at the stored location plus the
  offset when \<open>last_valid\<close> holds, returned as it came otherwise.
\<close>

theorem video_interval_gate:
  assumes "format frame = VIDEO_FORMAT_BGRA \<or> format frame = VIDEO_FORMAT_BGRX"
    and "\<not> mat_empty (template_gray filter')" and "\<not> mat_empty (overlay_draw filter')"
  shows
    "let r = shape_overlay_filter_video cv filter' (Some frame) now;
         due = (interval_ms filter' = 0 \<or>
                now - last_detect_ts filter' \<ge> (ucast (interval_ms filter') :: u64) * 1000000);
         frame_gray = cvtColor cv
            \<lparr>rows = nat (sint (height frame)), cols = nat (sint (width frame)),
             channels = 4, step = unat (linesize0 frame), data = data0 frame\<rparr> COLOR_BGRA2GRAY;
         res = detect_template cv frame_gray (template_gray filter') (threshold filter')
                 \<lparr>out_x = Some 0, out_y = Some 0, out_score = Some 0\<rparr>
     in events r = (if due then [Detect_call] else []) \<and>
        (due \<longrightarrow>
           filter_after r = detect_and_store cv filter' frame now \<and>
           last_detect_ts (filter_after r) = now \<and>
           out_score (snd res) = Some (last_score (filter_after r)) \<and>
           last_valid (filter_after r)
             = (fst res \<or> (last_valid filter' \<and> \<not> only_when_matched filter')) \<and>
           (fst res \<longrightarrow> out_x (snd res) = Some (last_x (filter_after r)) \<and>
                        out_y (snd res) = Some (last_y (filter_after r))) \<and>
           (\<not> fst res \<longrightarrow> last_x (filter_after r) = last_x filter' \<and>
                          last_y (filter_after r) = last_y filter') \<and>
           ret r = Some (if last_valid (filter_after r)
                         then frame\<lparr>data0 :=
                                blend_overlay_bgra (data0 frame) (linesize0 frame)
                                  (sint (width frame)) (sint (height frame)) (overlay_draw filter')
                                  (last_x (filter_after r) + offset_x filter')
                                  (last_y (filter_after r) + offset_y filter') (opacity filter')\<rparr>
                         else frame)) \<and>
        (\<not> due \<longrightarrow>
           filter_after r = filter' \<and>
           ret r = Some (if last_valid filter'
                         then frame\<lparr>data0 :=
                                blend_overlay_bgra (data0 frame) (linesize0 frame)
                                  (sint (width frame)) (sint (height frame)) (overlay_draw filter')
                                  (last_x filter' + offset_x filter')
                                  (last_y filter' + offset_y filter') (opacity filter')\<rparr>
                         else frame))"
proof -
  let ?r = "shape_overlay_filter_video cv filter' (Some frame) now"
  let ?due = "interval_ms filter' = 0 \<or>
                now - last_detect_ts filter' \<ge> (ucast (interval_ms filter') :: u64) * 1000000"
  have ev: "events ?r = (if ?due then [Detect_call] else [])"
    using assms by (auto simp add: shape_overlay_filter_video_def should_detect_def Let_def)
  have nd: "filter_after ?r = filter' \<and>
           ret ?r = Some (if last_valid filter'
                         then frame\<lparr>data0 :=
                                blend_overlay_bgra (data0 frame) (linesize0 frame)
                                  (sint (width frame)) (sint (height frame)) (overlay_draw filter')
                                  (last_x filter' + offset_x filter')
                                  (last_y filter' + offset_y filter') (opacity filter')\<rparr>
                         else frame)" if "\<not> ?due"
    using assms that by (auto simp add: shape_overlay_filter_video_def should_detect_def Let_def)
  have fa: "filter_after ?r = detect_and_store cv filter' frame now" if "?due"
    using assms that by (auto simp add: shape_overlay_filter_video_def should_detect_def Let_def)
  have rt: "ret ?r = Some (if last_valid (filter_after ?r)
                         then frame\<lparr>data0 :=
                                blend_overlay_bgra (data0 frame) (linesize0 frame)
                                  (sint (width frame)) (sint (height frame)) (overlay_draw filter')
                                  (last_x (filter_after ?r) + offset_x filter')
                                  (last_y (filter_after ?r) + offset_y filter') (opacity filter')\<rparr>
                         else frame)"
    using assms by (auto simp add: shape_overlay_filter_video_def Let_def)
  note d = detect_and_store_fields [of cv frame filter' now, unfolded Let_def]
  show ?thesis
    unfolding Let_def
    using ev nd fa rt d by (cases ?due) (simp_all only: simp_thms if_True if_False, auto)
qed

theorem video_interval_gate_witness:
  "events (shape_overlay_filter_video (cv_const (9 / 10)) filter5 (Some frame32) 5999999999) = [] \<and>
   last_detect_ts (filter_after
      (shape_overlay_filter_video (cv_const (9 / 10)) filter5 (Some frame32) 5999999999))
     = 5000000000 \<and>
   events (shape_overlay_filter_video (cv_const (9 / 10)) filter5 (Some frame32) 6000000000)
     = [Detect_call] \<and>
   last_detect_ts (filter_after
      (shape_overlay_filter_video (cv_const (9 / 10)) filter5 (Some frame32) 6000000000))
     = 6000000000"
proof -
  have f: "format frame32 = VIDEO_FORMAT_BGRA \<or> format frame32 = VIDEO_FORMAT_BGRX"
    by (simp add: frame32_fields)
  have nd: "\<not> (interval_ms filter5 = 0 \<or>
      (5999999999 :: u64) - last_detect_ts filter5 \<ge> (ucast (interval_ms filter5) :: u64) * 1000000)"
    by (simp add: filter5_fields)
  have du: "interval_ms filter5 = 0 \<or>
      (6000000000 :: u64) - last_detect_ts filter5 \<ge> (ucast (interval_ms filter5) :: u64) * 1000000"
    by (simp add: filter5_fields)
  note t1 = video_interval_gate [OF f filter5_fields(1,2), of "cv_const (9 / 10)" 5999999999,
      unfolded Let_def]
  note t2 = video_interval_gate [OF f filter5_fields(1,2), of "cv_const (9 / 10)" 6000000000,
      unfolded Let_def]
  from t1 nd have a: "events (shape_overlay_filter_video (cv_const (9 / 10)) filter5 (Some frame32)
        5999999999) = []"
    and b: "filter_after (shape_overlay_filter_video (cv_const (9 / 10)) filter5 (Some frame32)
        5999999999) = filter5"
    by (auto simp only: if_False simp_thms)
  from t2 du have c: "events (shape_overlay_filter_video (cv_const (9 / 10)) filter5 (Some frame32)
        6000000000) = [Detect_call]"
    and d: "last_detect_ts (filter_after (shape_overlay_filter_video (cv_const (9 / 10)) filter5
        (Some frame32) 6000000000)) = 6000000000"
    by (auto simp only: if_True simp_thms)
  show ?thesis using a b c d by (simp add: filter5_fields)
qed

text \<open>
  C2. When an attempt is due (supported format, non-empty template and overlay), with
  \<open>res\<close> what \<^verbatim>\<open>detect_template\<close> returns for the grayscale frame:
  \<open>last_detect_ts\<close> becomes \<open>now\<close> and \<open>last_score\<close> the reported score in either
  case; on a match \<open>last_valid\<close> becomes true and \<open>(last_x, last_y)\<close> the found
  location; on a miss \<open>last_valid\<close> becomes \<open>last_valid \<and> \<not> only_when_matched\<close> and
  the stored location stays.
\<close>

theorem video_detection_update:
  assumes "format frame = VIDEO_FORMAT_BGRA \<or> format frame = VIDEO_FORMAT_BGRX"
    and "\<not> mat_empty (template_gray filter')" and "\<not> mat_empty (overlay_draw filter')"
    and "should_detect filter' now"
  shows
    "let f = filter_after (shape_overlay_filter_video cv filter' (Some frame) now);
         frame_gray = cvtColor cv
            \<lparr>rows = nat (sint (height frame)), cols = nat (sint (width frame)),
             channels = 4, step = unat (linesize0 frame), data = data0 frame\<rparr> COLOR_BGRA2GRAY;
         res = detect_template cv frame_gray (template_gray filter') (threshold filter')
                 \<lparr>out_x = Some 0, out_y = Some 0, out_score = Some 0\<rparr>
     in last_detect_ts f = now \<and>
        out_score (snd res) = Some (last_score f) \<and>
        (fst res \<longrightarrow>
           last_valid f \<and> out_x (snd res) = Some (last_x f) \<and> out_y (snd res) = Some (last_y f)) \<and>
        (\<not> fst res \<longrightarrow>
           last_valid f = (last_valid filter' \<and> \<not> only_when_matched filter') \<and>
           last_x f = last_x filter' \<and> last_y f = last_y filter')"
proof -
  define frame_gray where "frame_gray = cvtColor cv
            \<lparr>rows = nat (sint (height frame)), cols = nat (sint (width frame)),
             channels = 4, step = unat (linesize0 frame), data = data0 frame\<rparr> COLOR_BGRA2GRAY"
  define res where "res = detect_template cv frame_gray (template_gray filter') (threshold filter')
                 \<lparr>out_x = Some 0, out_y = Some 0, out_score = Some 0\<rparr>"
  have fa: "filter_after (shape_overlay_filter_video cv filter' (Some frame) now)
      = detect_and_store cv filter' frame now"
    using assms by (auto simp add: shape_overlay_filter_video_def Let_def)
  have outs: "\<exists>x y s. snd res = \<lparr>out_x = Some x, out_y = Some y, out_score = Some s\<rparr>"
    by (auto simp add: res_def detect_template_def Let_def store_simps)
  then obtain x y s where s: "snd res = \<lparr>out_x = Some x, out_y = Some y, out_score = Some s\<rparr>"
    by blast
  obtain m where m: "res = (m, \<lparr>out_x = Some x, out_y = Some y, out_score = Some s\<rparr>)"
    using s by (cases res) simp
  show ?thesis
    unfolding Let_def fa frame_gray_def [symmetric] res_def [symmetric]
    unfolding detect_and_store_def Let_def frame_gray_def [symmetric] res_def [symmetric]
    by (simp add: m)
qed

theorem video_detection_update_witness:
  "\<not> last_valid (filter_after
       (shape_overlay_filter_video (cv_const (1 / 2)) filter5 (Some frame32) 6000000000)) \<and>
   last_detect_ts (filter_after
       (shape_overlay_filter_video (cv_const (1 / 2)) filter5 (Some frame32) 6000000000))
     = 6000000000 \<and>
   last_y (filter_after
       (shape_overlay_filter_video (cv_const (9 / 10)) filter5 (Some frame32) 6000000000)) = 1"
proof -
  let ?res = "\<lambda>cv. detect_template cv
       (cvtColor cv
          \<lparr>rows = nat (sint (height frame32)), cols = nat (sint (width frame32)),
           channels = 4, step = unat (linesize0 frame32), data = data0 frame32\<rparr> COLOR_BGRA2GRAY)
       (template_gray filter5) (threshold filter5)
       \<lparr>out_x = Some 0, out_y = Some 0, out_score = Some 0\<rparr>"
  let ?f = "\<lambda>cv. filter_after (shape_overlay_filter_video cv filter5 (Some frame32) 6000000000)"
  have f: "format frame32 = VIDEO_FORMAT_BGRA \<or> format frame32 = VIDEO_FORMAT_BGRX"
    by (simp add: frame32_fields)
  have d: "should_detect filter5 6000000000"
    by (simp add: should_detect_def filter5_fields)
  have miss: "\<not> fst (?res (cv_const (1 / 2)))"
    by (simp add: detect_template_def cv_const_def filter5_fields frame32_fields mat_empty_def
        gray_mat_def Let_def)
  have hit: "fst (?res (cv_const (9 / 10)))" "out_y (snd (?res (cv_const (9 / 10)))) = Some 1"
    by (simp_all add: detect_template_def cv_const_def filter5_fields frame32_fields mat_empty_def
        gray_mat_def Let_def store_simps)
  note t1 = video_detection_update [OF f filter5_fields(1,2) d, of "cv_const (1 / 2)", unfolded Let_def]
  note t2 = video_detection_update [OF f filter5_fields(1,2) d, of "cv_const (9 / 10)", unfolded Let_def]
  from t1 have ts: "last_detect_ts (?f (cv_const (1 / 2))) = 6000000000" by blast
  from t1 miss have "last_valid (?f (cv_const (1 / 2)))
      = (last_valid filter5 \<and> \<not> only_when_matched filter5)" by blast
  then have nv: "\<not> last_valid (?f (cv_const (1 / 2)))" by (simp add: filter5_fields)
  from t2 hit(1) have "out_y (snd (?res (cv_const (9 / 10)))) = Some (last_y (?f (cv_const (9 / 10))))"
    by blast
  then have "last_y (?f (cv_const (9 / 10))) = 1" using hit(2) by simp
  then show ?thesis using ts nv by simp
qed

end
